theory Spec2Isabelle
  imports Complex_Main
begin

section \<open>Exceptions as values\<close>

text \<open>
  A Python exception is a pair of its class and its message. A method that may raise
  returns \<open>error + 'a\<close> when it is pure, and the state it leaves behind together with
  \<open>error option\<close> when it mutates the animator.
\<close>

datatype exc_type =
  ValueError | ZeroDivisionError | OverflowError | IndexError
  | FileNotFoundError | UnidentifiedImageError | OSError

type_synonym error = "exc_type \<times> string"

section \<open>Floats\<close>

text \<open>
  A Python float is an IEEE 754 binary64 number. A finite one is the real number it
  denotes; every operation computes the exact real result and rounds it to the nearest
  double, ties to the even significand. \<open>ulp_exponent x\<close> is the exponent of the spacing of
  the doubles around \<open>x\<close>: 52 below the exponent of \<open>x\<close>, and never below that of the
  subnormal numbers.
\<close>

definition pow2 :: "int \<Rightarrow> real" where
  "pow2 e = 2 powr real_of_int e"

definition round_half_even :: "real \<Rightarrow> int" where
  "round_half_even y =
     (let f = \<lfloor>y\<rfloor>; d = y - real_of_int f
      in if d < 1 / 2 then f else if 1 / 2 < d then f + 1 else if even f then f else f + 1)"

definition ulp_exponent :: "real \<Rightarrow> int" where
  "ulp_exponent x = max (\<lfloor>log 2 \<bar>x\<bar>\<rfloor> - 52) (- 1074)"

definition round_double :: "real \<Rightarrow> real" where
  "round_double x =
     (if x = 0 then 0
      else real_of_int (round_half_even (x / pow2 (ulp_exponent x))) * pow2 (ulp_exponent x))"

text \<open>A rounded result of magnitude \<open>2 ^ 1024\<close> or more is beyond the largest double.\<close>

datatype pyfloat = Finite real | Infinite

text \<open>\<open>x * y\<close> on floats: an overflow gives an infinity and raises nothing.\<close>

definition float_mul :: "real \<Rightarrow> real \<Rightarrow> pyfloat" where
  "float_mul x y =
     (let p = round_double (x * y) in if 2 ^ 1024 \<le> \<bar>p\<bar> then Infinite else Finite p)"

text \<open>The conversion of an int operand to float, as in \<open>float * int\<close>.\<close>

definition float_of_int :: "int \<Rightarrow> error + real" where
  "float_of_int n =
     (let y = round_double (real_of_int n)
      in if 2 ^ 1024 \<le> \<bar>y\<bar> then Inl (OverflowError, ''int too large to convert to float'')
         else Inr y)"

text \<open>\<open>n / d\<close> on ints: the correctly rounded quotient.\<close>

definition int_true_div :: "int \<Rightarrow> int \<Rightarrow> error + real" where
  "int_true_div n d =
     (if d = 0 then Inl (ZeroDivisionError, ''division by zero'')
      else let y = round_double (real_of_int n / real_of_int d)
           in if 2 ^ 1024 \<le> \<bar>y\<bar>
              then Inl (OverflowError, ''integer division result too large for a float'')
              else Inr y)"

text \<open>\<open>math.pi\<close>, the double nearest to \<open>\<pi>\<close>.\<close>

definition math_pi :: real where
  "math_pi = 884279719003555 / 281474976710656"

text \<open>Python's \<open>int(x)\<close> on a finite float truncates towards zero.\<close>

definition py_int :: "real \<Rightarrow> int" where
  "py_int x = (if x < 0 then \<lceil>x\<rceil> else \<lfloor>x\<rfloor>)"

section \<open>Images\<close>

text \<open>
  A Pillow image: its mode, its size and its pixels, row-major from the top-left corner.
  Of Pillow's modes the four met here are kept. Every pixel carries four channels;
  \<open>alpha\<close> reads the fourth, and an \<open>L\<close> image keeps its single band in the first. An
  image that \<open>Image.open\<close> returned has read the header of its file only: its pixels are
  decoded when \<open>load()\<close> first runs, which raises when the data cannot be decoded;
  \<open>rows\<close> is then what a successful decoding yields.
\<close>

datatype mode = RGBA | RGB | L | P

type_synonym pixel = "nat \<times> nat \<times> nat \<times> nat"

datatype decode_state = Decoded | Undecoded "error option"

record image =
  mode :: mode
  width :: nat
  height :: nat
  rows :: "pixel list list"
  decode :: decode_state

definition alpha :: "pixel \<Rightarrow> nat" where
  "alpha p = snd (snd (snd p))"

definition wf_image :: "image \<Rightarrow> bool" where
  "wf_image img \<longleftrightarrow>
     length (rows img) = height img \<and> list_all (\<lambda>r. length r = width img) (rows img)"

definition getpixel :: "image \<Rightarrow> nat \<times> nat \<Rightarrow> pixel" where
  "getpixel img xy = rows img ! snd xy ! fst xy"

text \<open>
  \<open>img.load()\<close>. The image object keeps the pixels once they are decoded; every load
  yields the same pixels, so the callers below pass the image on as they received it.
\<close>

definition Image_load :: "image \<Rightarrow> error + image" where
  "Image_load img =
     (case decode img of
        Decoded \<Rightarrow> Inr img
      | Undecoded None \<Rightarrow> Inr (img\<lparr>decode := Decoded\<rparr>)
      | Undecoded (Some e) \<Rightarrow> Inl e)"

definition decodable :: "image \<Rightarrow> bool" where
  "decodable img \<longleftrightarrow>
     (case decode img of Decoded \<Rightarrow> True | Undecoded None \<Rightarrow> True | Undecoded (Some e) \<Rightarrow> False)"

section \<open>The animator\<close>

record animator =
  png_path :: string
  output_path :: string
  frames :: "image list"
  frame_count :: int
  bob_height :: int
  frame_duration :: int
  use_multiprocessing :: bool
  use_numpy_acceleration :: bool
  optimize_gif :: bool
  max_workers :: int
  cached_canvas_size :: "(int \<times> int) option"

text \<open>What \<open>save\<close> is asked to write: the frames and the keyword arguments of the call.\<close>

record artifact =
  gif_frames :: "image list"
  gif_duration :: int
  gif_loop :: int
  gif_disposal :: int
  gif_optimize :: bool
  gif_transparency :: "int option"

text \<open>
  The host and the libraries the animator calls, none of which is code of the repository:
  the processor count, \<open>os.path\<close>, the C library's \<open>sin\<close> behind \<open>math.sin\<close>, and
  Pillow's decoder, its refusal of a canvas it cannot allocate, its pixel conversion and
  the conversions it does not support, its alpha mixing, adaptive palette, quantizer and
  GIF writer. Each is a parameter, so that every theorem holds for whatever these do.
\<close>

record env =
  cpu_count :: int
  path_stem :: "string \<Rightarrow> string"
  math_sin :: "real \<Rightarrow> real"
  Image_open :: "string \<Rightarrow> error + image"
  new_failure :: "int \<times> int \<Rightarrow> error option"
  convert_failure :: "mode \<Rightarrow> mode \<Rightarrow> error option"
  convert_pixel :: "mode \<Rightarrow> mode \<Rightarrow> pixel \<Rightarrow> pixel"
  blend :: "pixel \<Rightarrow> pixel \<Rightarrow> nat \<Rightarrow> pixel"
  convert_adaptive :: "image \<Rightarrow> error + image"
  quantize :: "image \<Rightarrow> image \<Rightarrow> error + image"
  save_failure :: "string \<Rightarrow> artifact \<Rightarrow> error option"

text \<open>The library's sine stays within \<open>[-1, 1]\<close>.\<close>

definition unit_sine :: "env \<Rightarrow> bool" where
  "unit_sine env \<longleftrightarrow> (\<forall>x. \<bar>math_sin env x\<bar> \<le> 1)"

section \<open>Pillow's image operations\<close>

text \<open>
  \<open>Image.new(mode, size, color)\<close>: a negative size is a ValueError, and a size the library
  or the host cannot hold is refused as well.
\<close>

definition Image_new :: "env \<Rightarrow> mode \<Rightarrow> int \<times> int \<Rightarrow> pixel \<Rightarrow> error + image" where
  "Image_new env m sz color =
     (if fst sz < 0 \<or> snd sz < 0 then Inl (ValueError, ''Width and height must be >= 0'')
      else (case new_failure env sz of
              Some e \<Rightarrow> Inl e
            | None \<Rightarrow>
                Inr \<lparr>mode = m, width = nat (fst sz), height = nat (snd sz),
                     rows = replicate (nat (snd sz)) (replicate (nat (fst sz)) color),
                     decode = Decoded\<rparr>))"

text \<open>
  \<open>img.convert(m)\<close> decodes the image, then returns a new image of the requested mode and
  the same size, each pixel converted by the library.
\<close>

definition Image_convert :: "env \<Rightarrow> image \<Rightarrow> mode \<Rightarrow> error + image" where
  "Image_convert env img m =
     (case Image_load img of
        Inl e \<Rightarrow> Inl e
      | Inr loaded \<Rightarrow>
          (case convert_failure env (mode img) m of
             Some e \<Rightarrow> Inl e
           | None \<Rightarrow>
               Inr (loaded\<lparr>mode := m,
                      rows := map (map (convert_pixel env (mode img) m)) (rows loaded)\<rparr>)))"

text \<open>
  The pixels of a paste at \<open>box\<close> of a source of size \<open>sz\<close>: every canvas pixel that lies
  under the source becomes \<open>mix\<close> of itself and of its position in the source, every other
  canvas pixel is kept; the part of the source that falls outside the canvas is clipped.
\<close>

definition paste_pixels ::
  "(pixel \<Rightarrow> nat \<times> nat \<Rightarrow> pixel) \<Rightarrow> image \<Rightarrow> nat \<times> nat \<Rightarrow> int \<times> int \<Rightarrow> image" where
  "paste_pixels mix canvas sz box =
     canvas\<lparr>rows :=
       map (\<lambda>cy. map (\<lambda>cx.
              let sx = int cx - fst box; sy = int cy - snd box in
              if 0 \<le> sx \<and> sx < int (fst sz) \<and> 0 \<le> sy \<and> sy < int (snd sz)
              then mix (getpixel canvas (cx, cy)) (nat sx, nat sy)
              else getpixel canvas (cx, cy))
            [0..<width canvas])
         [0..<height canvas]\<rparr>"

text \<open>The band of a mask image that weighs the mixing; \<open>RGB\<close> and \<open>P\<close> images are no masks.\<close>

definition mask_band :: "mode \<Rightarrow> (pixel \<Rightarrow> nat) option" where
  "mask_band m = (case m of RGBA \<Rightarrow> Some alpha | L \<Rightarrow> Some fst | RGB \<Rightarrow> None | P \<Rightarrow> None)"

text \<open>
  \<open>canvas.paste(im, (x, y) [, mask])\<close>: the source is decoded, and converted when its mode
  is not the canvas's (an \<open>RGBA\<close> source on an \<open>RGB\<close> canvas apart); a mask is decoded too
  and must have the size of the source and a band to read.
\<close>

definition paste ::
  "env \<Rightarrow> image \<Rightarrow> image \<Rightarrow> int \<times> int \<Rightarrow> image option \<Rightarrow> error + image" where
  "paste env canvas im box msk =
     (case Image_load im of
        Inl e \<Rightarrow> Inl e
      | Inr loaded \<Rightarrow>
          (case (if mode canvas \<noteq> mode loaded \<and> (mode canvas \<noteq> RGB \<or> mode loaded \<noteq> RGBA)
                 then Image_convert env loaded (mode canvas) else Inr loaded) of
             Inl e \<Rightarrow> Inl e
           | Inr src \<Rightarrow>
               (case msk of
                  None \<Rightarrow>
                    Inr (paste_pixels (\<lambda>d xy. getpixel src xy) canvas (width im, height im) box)
                | Some mk \<Rightarrow>
                    (case Image_load mk of
                       Inl e \<Rightarrow> Inl e
                     | Inr m \<Rightarrow>
                         if (width m, height m) \<noteq> (width im, height im)
                         then Inl (ValueError, ''images do not match'')
                         else (case mask_band (mode m) of
                                 None \<Rightarrow> Inl (ValueError, ''bad transparency mask'')
                               | Some band \<Rightarrow>
                                   Inr (paste_pixels
                                          (\<lambda>d xy. blend env d (getpixel src xy) (band (getpixel m xy)))
                                          canvas (width im, height im) box))))))"

section \<open>Motion model and compositor: \<open>create_frame\<close>\<close>

text \<open>
  \<open>angle = (frame_index / self.frame_count) * 2 * math.pi\<close>: the true division of two ints,
  which raises on a zero divisor and on a quotient too large for a float, then two float
  multiplications.
\<close>

definition bob_angle :: "animator \<Rightarrow> int \<Rightarrow> error + pyfloat" where
  "bob_angle a frame_index =
     (case int_true_div frame_index (frame_count a) of
        Inl e \<Rightarrow> Inl e
      | Inr q \<Rightarrow>
          Inr (case float_mul q 2 of
                 Infinite \<Rightarrow> Infinite
               | Finite q2 \<Rightarrow> float_mul q2 math_pi))"

text \<open>
  \<open>bob_offset = int(math.sin(angle) * self.bob_height)\<close>: \<open>math.sin\<close> raises on an
  infinity, the bob height is converted to float, and \<open>int\<close> raises on an infinity.
\<close>

definition bob_offset :: "env \<Rightarrow> animator \<Rightarrow> int \<Rightarrow> error + int" where
  "bob_offset env a frame_index =
     (case bob_angle a frame_index of
        Inl e \<Rightarrow> Inl e
      | Inr Infinite \<Rightarrow> Inl (ValueError, ''math domain error'')
      | Inr (Finite angle) \<Rightarrow>
          (case float_of_int (bob_height a) of
             Inl e \<Rightarrow> Inl e
           | Inr h \<Rightarrow>
               (case float_mul (math_sin env angle) h of
                  Infinite \<Rightarrow> Inl (OverflowError, ''cannot convert float infinity to integer'')
                | Finite p \<Rightarrow> Inr (py_int p))))"

definition transparent :: pixel where
  "transparent = (0, 0, 0, 0)"

text \<open>The image is its own mask in \<open>canvas.paste(img, (img_x, img_y), img)\<close>.\<close>

definition create_frame :: "env \<Rightarrow> animator \<Rightarrow> image \<Rightarrow> int \<Rightarrow> error + image" where
  "create_frame env a img frame_index =
     (case bob_offset env a frame_index of
        Inl e \<Rightarrow> Inl e
      | Inr off \<Rightarrow>
          let canvas_width = int (width img) + 20;
              canvas_height = int (height img) + bob_height a * 2 + 20
          in (case Image_new env RGBA (canvas_width, canvas_height) transparent of
                Inl e \<Rightarrow> Inl e
              | Inr canvas \<Rightarrow>
                  let img_x = (canvas_width - int (width img)) div 2;
                      img_y = 10 + bob_height a - off
                  in paste env canvas img (img_x, img_y) (Some img)))"

text \<open>The motion model as the specification words it: the product is rounded.\<close>

definition spec_offset :: "int \<Rightarrow> int \<Rightarrow> int \<Rightarrow> int" where
  "spec_offset frame_index frameCount bobHeight =
     round (sin (2 * pi * real_of_int frame_index / real_of_int frameCount) * real_of_int bobHeight)"

section \<open>Loading the source: \<open>load_png\<close>\<close>


section \<open>Construction and the setters\<close>

definition get_default_output_path :: "env \<Rightarrow> string \<Rightarrow> string" where
  "get_default_output_path env p = path_stem env p @ ''_bobbing.gif''"

text \<open>
  \<open>__init__(png_path, output_path=None)\<close>; \<open>output_path or default\<close> also replaces an
  empty string by the default.
\<close>

definition init :: "env \<Rightarrow> string \<Rightarrow> string option \<Rightarrow> animator" where
  "init env p out =
     \<lparr>png_path = p,
      output_path = (case out of
                       None \<Rightarrow> get_default_output_path env p
                     | Some s \<Rightarrow> if s = [] then get_default_output_path env p else s),
      frames = [],
      frame_count = 30,
      bob_height = 10,
      frame_duration = 80,
      use_multiprocessing = True,
      use_numpy_acceleration = True,
      optimize_gif = True,
      max_workers = min (cpu_count env) 8,
      cached_canvas_size = None\<rparr>"

text \<open>An argument left at \<open>None\<close> keeps the field.\<close>

definition set_animation_params ::
  "animator \<Rightarrow> int option \<Rightarrow> int option \<Rightarrow> int option \<Rightarrow> animator" where
  "set_animation_params a fc bh fd =
     (let a1 = (case fc of None \<Rightarrow> a | Some v \<Rightarrow> a\<lparr>frame_count := v\<rparr>);
          a2 = (case bh of None \<Rightarrow> a1 | Some v \<Rightarrow> a1\<lparr>bob_height := v\<rparr>)
      in (case fd of None \<Rightarrow> a2 | Some v \<Rightarrow> a2\<lparr>frame_duration := v\<rparr>))"

definition set_performance_options ::
  "env \<Rightarrow> animator \<Rightarrow> bool \<Rightarrow> bool \<Rightarrow> bool \<Rightarrow> int option \<Rightarrow> animator" where
  "set_performance_options env a mp np og mw =
     (let a1 = a\<lparr>use_multiprocessing := mp, use_numpy_acceleration := np, optimize_gif := og\<rparr>
      in (case mw of
            None \<Rightarrow> a1
          | Some w \<Rightarrow> a1\<lparr>max_workers := min w (cpu_count env)\<rparr>))"

section \<open>Frame generation\<close>








section \<open>Saving\<close>

text \<open>
  The files written so far, by path. \<open>save\<close> either fails, leaving the files as they
  were, or puts the artifact at the path.
\<close>

type_synonym files = "string \<rightharpoonup> artifact"

definition Image_save :: "env \<Rightarrow> string \<Rightarrow> artifact \<Rightarrow> files \<Rightarrow> files \<times> error option" where
  "Image_save env path art fs =
     (case save_failure env path art of
        Some e \<Rightarrow> (fs, Some e)
      | None \<Rightarrow> (fs(path \<mapsto> art), None))"

definition save_standard_gif :: "env \<Rightarrow> animator \<Rightarrow> files \<Rightarrow> files \<times> error option" where
  "save_standard_gif env a fs =
     (case frames a of
        [] \<Rightarrow> (fs, Some (IndexError, ''list index out of range''))
      | f # rest \<Rightarrow>
          Image_save env (output_path a)
            \<lparr>gif_frames = f # rest, gif_duration = frame_duration a, gif_loop = 0,
             gif_disposal = 2, gif_optimize = True, gif_transparency = Some 0\<rparr> fs)"

text \<open>The first frames, at most four, side by side: the sample the palette is built from.\<close>

fun paste_frames :: "env \<Rightarrow> image \<Rightarrow> image list \<Rightarrow> int \<Rightarrow> error + image" where
  "paste_frames env combined [] i = Inr combined"
| "paste_frames env combined (frame # rest) i =
     (case paste env combined frame (i * int (width frame), 0) None of
        Inl e \<Rightarrow> Inl e
      | Inr pasted \<Rightarrow> paste_frames env pasted rest (i + 1))"

definition combined_image :: "env \<Rightarrow> image list \<Rightarrow> error + image" where
  "combined_image env fs =
     (case fs of
        [] \<Rightarrow> Inl (IndexError, ''list index out of range'')
      | f0 # _ \<Rightarrow>
          (case Image_new env RGBA (int (width f0) * min 4 (int (length fs)), int (height f0))
                  transparent of
             Inl e \<Rightarrow> Inl e
           | Inr combined \<Rightarrow> paste_frames env combined (take 4 fs) 0))"

fun quantize_all :: "env \<Rightarrow> image \<Rightarrow> image list \<Rightarrow> error + image list" where
  "quantize_all env pal [] = Inr []"
| "quantize_all env pal (frame # rest) =
     (case quantize env frame pal of
        Inl e \<Rightarrow> Inl e
      | Inr frame_p \<Rightarrow>
          (case quantize_all env pal rest of
             Inl e \<Rightarrow> Inl e
           | Inr rest_p \<Rightarrow> Inr (frame_p # rest_p)))"

text \<open>Palette construction and quantization, the part of the \<open>try\<close> block before the save.\<close>

definition optimize_frames :: "env \<Rightarrow> image list \<Rightarrow> error + image list" where
  "optimize_frames env fs =
     (case combined_image env fs of
        Inl e \<Rightarrow> Inl e
      | Inr combined \<Rightarrow>
          (case convert_adaptive env combined of
             Inl e \<Rightarrow> Inl e
           | Inr combined_p \<Rightarrow> quantize_all env combined_p fs))"

text \<open>Every exception inside the \<open>try\<close> block ends in \<open>_save_standard_gif\<close>.\<close>

definition save_optimized_gif :: "env \<Rightarrow> animator \<Rightarrow> files \<Rightarrow> files \<times> error option" where
  "save_optimized_gif env a fs =
     (case optimize_frames env (frames a) of
        Inl e \<Rightarrow> save_standard_gif env a fs
      | Inr [] \<Rightarrow> save_standard_gif env a fs
      | Inr (f # rest) \<Rightarrow>
          (case Image_save env (output_path a)
                  \<lparr>gif_frames = f # rest, gif_duration = frame_duration a, gif_loop = 0,
                   gif_disposal = 2, gif_optimize = True, gif_transparency = None\<rparr> fs of
             (fs', Some e) \<Rightarrow> save_standard_gif env a fs'
           | (fs', None) \<Rightarrow> (fs', None)))"

definition save_gif :: "env \<Rightarrow> animator \<Rightarrow> files \<Rightarrow> files \<times> error option" where
  "save_gif env a fs =
     (if frames a = [] then (fs, Some (ValueError, ''No frames to save''))
      else if optimize_gif a then save_optimized_gif env a fs
      else save_standard_gif env a fs)"

section \<open>The pipeline: \<open>create_animation\<close>\<close>


section \<open>A sample host and sample inputs\<close>

text \<open>
  One concrete host, on which the theorems below are run: sixteen processors; a file
  system holding a 64 by 64 opaque square, a two-pixel greyscale image, a copy of each
  whose pixel data is cut short, a text file that is no image, and nothing else; a library that
  holds no canvas of \<open>2 ^ 31\<close> pixels or more on a side; Pillow's integer alpha mixing; a
  quantizer that refuses RGBA frames when given a palette image; and a writer that fails
  below the directory \<open>/missing\<close>. Its sine is the correctly rounded one, except at three
  angles where it has the values the GNU C library returns: at the doubles that twelve
  frames give for the indices 1 and 2, and at \<open>math.pi / 2\<close>.
\<close>

definition libm_sin :: "real \<Rightarrow> real" where
  "libm_sin x =
     (if x = 4716158501352293 / 9007199254740992 then 9007199254740991 / 18014398509481984
      else if x = 4716158501352293 / 4503599627370496 then 3900231685776981 / 4503599627370496
      else if x = 884279719003555 / 562949953421312 then 1
      else round_double (sin x))"

definition grey :: image where
  "grey = \<lparr>mode = L, width = 2, height = 1, rows = [[(7, 0, 0, 0), (9, 0, 0, 0)]],
           decode = Decoded\<rparr>"

definition square :: image where
  "square = \<lparr>mode = RGBA, width = 64, height = 64,
             rows = replicate 64 (replicate 64 (255, 0, 0, 255)), decode = Decoded\<rparr>"

definition pillow_blend :: "pixel \<Rightarrow> pixel \<Rightarrow> nat \<Rightarrow> pixel" where
  "pillow_blend d s m =
     (case d of (r, g, b, t) \<Rightarrow>
        (case s of (r', g', b', t') \<Rightarrow>
           ((r * (255 - m) + r' * m) div 255, (g * (255 - m) + g' * m) div 255,
            (b * (255 - m) + b' * m) div 255, (t * (255 - m) + t' * m) div 255)))"

definition host :: env where
  "host =
     \<lparr>cpu_count = 16,
      path_stem = (\<lambda>p. takeWhile (\<lambda>c. c \<noteq> CHR ''.'') p),
      math_sin = libm_sin,
      Image_open = (\<lambda>p.
        if p = ''square.png'' then Inr (square\<lparr>decode := Undecoded None\<rparr>)
        else if p = ''grey.png'' then Inr (grey\<lparr>decode := Undecoded None\<rparr>)
        else if p = ''cut.png''
          then Inr (square\<lparr>decode := Undecoded (Some (OSError, ''image file is truncated''))\<rparr>)
        else if p = ''cutgrey.png''
          then Inr (grey\<lparr>decode := Undecoded (Some (OSError, ''image file is truncated''))\<rparr>)
        else if p = ''notes.txt'' then Inl (UnidentifiedImageError, ''cannot identify image file'')
        else Inl (FileNotFoundError, ''No such file or directory'')),
      new_failure = (\<lambda>sz.
        if 2 ^ 31 \<le> fst sz \<or> 2 ^ 31 \<le> snd sz
        then Some (OverflowError, ''signed integer is greater than maximum'')
        else None),
      convert_failure = (\<lambda>m m'. None),
      convert_pixel = (\<lambda>m m' p. if m = L then (fst p, fst p, fst p, 255) else p),
      blend = pillow_blend,
      convert_adaptive = (\<lambda>img. Inr (img\<lparr>mode := P\<rparr>)),
      quantize = (\<lambda>frame pal.
        if mode frame = RGBA
        then Inl (ValueError, ''only RGB or L mode images can be quantized to a palette'')
        else Inr (frame\<lparr>mode := P\<rparr>)),
      save_failure = (\<lambda>p art.
        if take 9 p = ''/missing/'' then Some (FileNotFoundError, ''No such file or directory'')
        else None)\<rparr>"

definition fresh :: animator where
  "fresh = init host ''square.png'' None"

text \<open>Twelve frames, with one pixel and with ten pixels of travel.\<close>

definition twelve :: animator where
  "twelve = set_animation_params fresh (Some 12) (Some 1) None"

definition twelve_ten :: animator where
  "twelve_ten = set_animation_params fresh (Some 12) (Some 10) None"

text \<open>Four frames and a bob height just above \<open>2 ^ 53\<close>.\<close>

definition tall :: animator where
  "tall = set_animation_params fresh (Some 4) (Some 9007199254740995) None"




text \<open>One frame ready to be saved, to the default path and below \<open>/missing\<close>.\<close>

definition ready :: animator where
  "ready = (init host ''square.png'' None)\<lparr>frames := [square]\<rparr>"

definition stuck :: animator where
  "stuck = (init host ''square.png'' (Some ''/missing/out.gif''))\<lparr>frames := [square]\<rparr>"

section \<open>Properties of double rounding\<close>

lemma pow2_pos: "0 < pow2 e"
  by (simp add: pow2_def)

lemma pow2_add: "pow2 (d + e) = pow2 d * pow2 e"
  by (simp add: pow2_def powr_add)

lemma pow2_nat: "pow2 (int k) = 2 ^ k"
  by (simp add: pow2_def powr_realpow)

lemma pow2_neg: "pow2 (- int k) = 1 / 2 ^ k"
  by (simp add: pow2_def powr_minus powr_realpow divide_inverse)

lemma pow2_numeral:
  "pow2 0 = 1" "pow2 1 = 2" "pow2 (- 1) = 1 / 2"
  "pow2 (numeral n) = 2 ^ numeral n"
  "pow2 (- numeral n) = 1 / 2 ^ numeral n"
proof -
  show "pow2 0 = 1" by (simp add: pow2_def)
  show "pow2 1 = 2" by (simp add: pow2_def)
  show "pow2 (- 1) = 1 / 2" using pow2_neg [of 1] by simp
  show "pow2 (numeral n) = 2 ^ numeral n"
    using pow2_nat [of "numeral n"] by simp
  show "pow2 (- numeral n) = 1 / 2 ^ numeral n"
    using pow2_neg [of "numeral n"] by simp
qed

lemma pow2_mono: "d \<le> e \<Longrightarrow> pow2 d \<le> pow2 e"
  by (simp add: pow2_def)

lemma pow2_split:
  assumes "e \<le> k"
  shows "pow2 k = real_of_int (2 ^ nat (k - e)) * pow2 e"
proof -
  define n where "n = nat (k - e)"
  have b: "int n + e = k" using assms by (simp add: n_def)
  have "pow2 (int n + e) = pow2 (int n) * pow2 e" by (rule pow2_add)
  then have "pow2 k = 2 ^ n * pow2 e" by (simp only: b pow2_nat)
  then show ?thesis by (simp add: n_def)
qed

lemma round_half_even_int: "round_half_even (real_of_int k) = k"
  by (simp add: round_half_even_def)

lemma round_half_even_abs_le:
  assumes "\<bar>y\<bar> \<le> real_of_int K"
  shows "\<bar>round_half_even y\<bar> \<le> K"
proof -
  have "real_of_int (- K) \<le> y" using assms by simp
  then have lo: "- K \<le> \<lfloor>y\<rfloor>" by (simp only: le_floor_iff)
  have "real_of_int \<lfloor>y\<rfloor> \<le> real_of_int K" using assms of_int_floor_le [of y] by linarith
  then have hi: "\<lfloor>y\<rfloor> \<le> K" by linarith
  have up: "\<lfloor>y\<rfloor> + 1 \<le> K" if "0 < y - real_of_int \<lfloor>y\<rfloor>"
  proof -
    have "real_of_int \<lfloor>y\<rfloor> < real_of_int K" using that assms by linarith
    then show ?thesis by linarith
  qed
  show ?thesis
    using lo hi up by (auto simp: round_half_even_def Let_def)
qed

lemma floor_log2_le:
  assumes "x \<noteq> 0" and "\<bar>x\<bar> \<le> pow2 k"
  shows "\<lfloor>log 2 \<bar>x\<bar>\<rfloor> \<le> k"
proof -
  have "log 2 \<bar>x\<bar> \<le> real_of_int k"
    using assms by (simp add: log_le_iff pow2_def)
  then have "\<lfloor>log 2 \<bar>x\<bar>\<rfloor> \<le> \<lfloor>real_of_int k\<rfloor>" by (rule floor_mono)
  then show ?thesis by simp
qed

lemma floor_log2_ge:
  assumes "x \<noteq> 0" and "k \<le> \<lfloor>log 2 \<bar>x\<bar>\<rfloor>"
  shows "pow2 k \<le> \<bar>x\<bar>"
proof -
  have "real_of_int k \<le> log 2 \<bar>x\<bar>" using assms(2) by (simp add: le_floor_iff)
  then show ?thesis using assms(1) by (simp add: le_log_iff pow2_def)
qed

lemma ulp_exponent_eq:
  assumes "pow2 k \<le> \<bar>x\<bar>" and "\<bar>x\<bar> < pow2 (k + 1)" and "- 1022 \<le> k"
  shows "ulp_exponent x = k - 52"
proof -
  have "0 < \<bar>x\<bar>" using assms(1) pow2_pos [of k] by linarith
  then have "\<lfloor>log 2 \<bar>x\<bar>\<rfloor> = k"
    using assms(1,2) by (simp add: floor_log_eq_powr_iff pow2_def)
  then show ?thesis using assms(3) by (simp add: ulp_exponent_def)
qed

lemma round_double_zero: "round_double 0 = 0"
  by (simp add: round_double_def)

lemma round_double_eval:
  assumes "pow2 k \<le> \<bar>x\<bar>" and "\<bar>x\<bar> < pow2 (k + 1)" and "- 1022 \<le> k"
  shows "round_double x = real_of_int (round_half_even (x / pow2 (k - 52))) * pow2 (k - 52)"
proof -
  have "x \<noteq> 0" using assms(1) pow2_pos [of k] by auto
  then show ?thesis using ulp_exponent_eq [OF assms] by (simp add: round_double_def)
qed

text \<open>Rounding never passes a bound that is itself a multiple of the spacing.\<close>

lemma round_double_multiple_bound:
  assumes "x \<noteq> 0" and "B = real_of_int m * pow2 (ulp_exponent x)" and "\<bar>x\<bar> \<le> B"
  shows "\<bar>round_double x\<bar> \<le> B"
proof -
  define u where "u = pow2 (ulp_exponent x)"
  have u: "0 < u" by (simp add: u_def pow2_pos)
  have "\<bar>x / u\<bar> \<le> real_of_int m"
    using assms(2,3) u by (simp add: u_def [symmetric] pos_divide_le_eq)
  then have "\<bar>round_half_even (x / u)\<bar> \<le> m" by (rule round_half_even_abs_le)
  then have "real_of_int \<bar>round_half_even (x / u)\<bar> \<le> real_of_int m" by linarith
  then have "real_of_int \<bar>round_half_even (x / u)\<bar> * u \<le> real_of_int m * u"
    using u by (simp add: mult_right_mono)
  moreover have "\<bar>round_double x\<bar> = real_of_int \<bar>round_half_even (x / u)\<bar> * u"
    using assms(1) u by (simp add: round_double_def u_def [symmetric] abs_mult)
  ultimately show ?thesis using assms(2) by (simp add: u_def)
qed

lemma round_double_multiple_exact:
  assumes "x = real_of_int m * pow2 (ulp_exponent x)"
  shows "round_double x = x"
proof (cases "x = 0")
  case True
  then show ?thesis by (simp add: round_double_def)
next
  case False
  define u where "u = pow2 (ulp_exponent x)"
  have u: "0 < u" by (simp add: u_def pow2_pos)
  have xu: "x = real_of_int m * u" using assms by (simp only: u_def)
  have "x / u = real_of_int m" using u by (subst xu) simp
  then have "real_of_int (round_half_even (x / u)) * u = x"
    using xu by (simp only: round_half_even_int)
  then show ?thesis using False by (simp add: round_double_def u_def)
qed

lemma round_double_pow2_bound:
  assumes "\<bar>x\<bar> \<le> pow2 k" and "- 1074 \<le> k"
  shows "\<bar>round_double x\<bar> \<le> pow2 k"
proof (cases "x = 0")
  case True
  then show ?thesis using pow2_pos [of k] by (simp add: round_double_def)
next
  case False
  have "\<lfloor>log 2 \<bar>x\<bar>\<rfloor> \<le> k" using False assms(1) by (rule floor_log2_le)
  then have "ulp_exponent x \<le> k" using assms(2) by (simp add: ulp_exponent_def)
  then have "pow2 k = real_of_int (2 ^ nat (k - ulp_exponent x)) * pow2 (ulp_exponent x)"
    by (rule pow2_split)
  from round_double_multiple_bound [OF False this assms(1)] show ?thesis .
qed

text \<open>An int of at most \<open>2 ^ 53\<close> is a multiple of the spacing around anything it bounds.\<close>

lemma int_multiple_of_ulp:
  assumes "x \<noteq> 0" and "\<bar>x\<bar> \<le> real_of_int h" and "h \<le> 2 ^ 53"
  shows "\<exists>m. real_of_int h = real_of_int m * pow2 (ulp_exponent x)"
proof -
  have h53: "real_of_int h \<le> pow2 53" using assms(3) by (simp add: pow2_numeral)
  have fl: "\<lfloor>log 2 \<bar>x\<bar>\<rfloor> \<le> 53"
    using assms(1,2) h53 by (intro floor_log2_le) linarith+
  show ?thesis
  proof (cases "ulp_exponent x \<le> 0")
    case True
    have "pow2 0 = real_of_int (2 ^ nat (0 - ulp_exponent x)) * pow2 (ulp_exponent x)"
      using True by (rule pow2_split)
    then have "real_of_int h = real_of_int (h * 2 ^ nat (0 - ulp_exponent x)) * pow2 (ulp_exponent x)"
      by (simp add: pow2_numeral)
    then show ?thesis by blast
  next
    case False
    define l where "l = \<lfloor>log 2 \<bar>x\<bar>\<rfloor>"
    have ue: "ulp_exponent x = max (l - 52) (- 1074)" by (simp add: ulp_exponent_def l_def)
    have l53: "l \<le> 53" using fl by (simp only: l_def)
    have e1: "ulp_exponent x = 1" and "53 \<le> l" using False ue l53 by linarith+
    then have "53 \<le> \<lfloor>log 2 \<bar>x\<bar>\<rfloor>" by (simp only: l_def)
    with assms(1) have "pow2 53 \<le> \<bar>x\<bar>" by (rule floor_log2_ge)
    then have "real_of_int h = 2 ^ 53" using assms(2) h53 by (simp add: pow2_numeral)
    then have "real_of_int h = real_of_int (2 ^ 52) * pow2 (ulp_exponent x)"
      by (simp add: e1 pow2_numeral)
    then show ?thesis by blast
  qed
qed

lemma round_double_int_bound:
  assumes "\<bar>x\<bar> \<le> real_of_int h" and "h \<le> 2 ^ 53"
  shows "\<bar>round_double x\<bar> \<le> real_of_int h"
proof (cases "x = 0")
  case True
  then show ?thesis using assms(1) by (simp add: round_double_def)
next
  case False
  obtain m where "real_of_int h = real_of_int m * pow2 (ulp_exponent x)"
    using int_multiple_of_ulp [OF False assms] by blast
  from round_double_multiple_bound [OF False this assms(1)] show ?thesis .
qed

lemma round_double_int_exact:
  assumes "\<bar>h\<bar> \<le> 2 ^ 53"
  shows "round_double (real_of_int h) = real_of_int h"
proof (cases "h = 0")
  case True
  then show ?thesis by (simp add: round_double_def)
next
  case False
  have 1: "real_of_int h \<noteq> 0" using False by simp
  have 2: "\<bar>real_of_int h\<bar> \<le> real_of_int \<bar>h\<bar>" by simp
  obtain m where m: "real_of_int \<bar>h\<bar> = real_of_int m * pow2 (ulp_exponent (real_of_int h))"
    using int_multiple_of_ulp [OF 1 2 assms] by blast
  have "real_of_int h = real_of_int (if 0 \<le> h then m else - m) * pow2 (ulp_exponent (real_of_int h))"
    using m by (auto simp: abs_if split: if_splits)
  then show ?thesis by (rule round_double_multiple_exact)
qed

text \<open>The operations at a result whose binade is known, and where nothing is lost.\<close>

lemma big_bound: "pow2 1023 < (2::real) ^ 1024"
  by (simp add: pow2_numeral)

lemma float_mul_eval:
  assumes "pow2 k \<le> \<bar>x * y\<bar>" and "\<bar>x * y\<bar> < pow2 (k + 1)" and "- 1022 \<le> k" and "k \<le> 1022"
  shows "float_mul x y =
           Finite (real_of_int (round_half_even (x * y / pow2 (k - 52))) * pow2 (k - 52))"
proof -
  have "\<bar>x * y\<bar> \<le> pow2 (k + 1)" using assms(2) by simp
  then have "\<bar>round_double (x * y)\<bar> \<le> pow2 (k + 1)"
    using assms(3) by (intro round_double_pow2_bound) simp_all
  also have "pow2 (k + 1) \<le> pow2 1023" using assms(4) by (intro pow2_mono) simp
  finally have "\<not> 2 ^ 1024 \<le> \<bar>round_double (x * y)\<bar>" using big_bound by linarith
  then show ?thesis
    using round_double_eval [OF assms(1,2,3)] by (simp add: float_mul_def Let_def)
qed

lemma int_true_div_eval:
  assumes "d \<noteq> 0" and "pow2 k \<le> \<bar>real_of_int n / real_of_int d\<bar>"
    and "\<bar>real_of_int n / real_of_int d\<bar> < pow2 (k + 1)" and "- 1022 \<le> k" and "k \<le> 1022"
  shows "int_true_div n d =
           Inr (real_of_int (round_half_even (real_of_int n / real_of_int d / pow2 (k - 52)))
                * pow2 (k - 52))"
proof -
  have "\<bar>real_of_int n / real_of_int d\<bar> \<le> pow2 (k + 1)" using assms(3) by simp
  then have "\<bar>round_double (real_of_int n / real_of_int d)\<bar> \<le> pow2 (k + 1)"
    using assms(4) by (intro round_double_pow2_bound) simp_all
  also have "pow2 (k + 1) \<le> pow2 1023" using assms(5) by (intro pow2_mono) simp
  finally have "\<not> 2 ^ 1024 \<le> \<bar>round_double (real_of_int n / real_of_int d)\<bar>"
    using big_bound by linarith
  then show ?thesis
    using assms(1) round_double_eval [OF assms(2,3,4)] by (simp add: int_true_div_def Let_def)
qed

lemma float_of_int_exact:
  assumes "\<bar>h\<bar> \<le> 2 ^ 53"
  shows "float_of_int h = Inr (real_of_int h)"
proof -
  have "real_of_int \<bar>h\<bar> \<le> real_of_int (2 ^ 53)" using assms by (simp only: of_int_le_iff)
  then have "\<bar>real_of_int h\<bar> \<le> 2 ^ 53" by simp
  also have "(2::real) ^ 53 < 2 ^ 1024" by simp
  finally have "\<not> 2 ^ 1024 \<le> \<bar>real_of_int h\<bar>" by simp
  then show ?thesis
    using round_double_int_exact [OF assms] by (simp add: float_of_int_def Let_def)
qed

lemma float_mul_bounded:
  assumes "\<bar>x * y\<bar> \<le> pow2 k" and "- 1074 \<le> k" and "k \<le> 1023"
  shows "\<exists>p. float_mul x y = Finite p \<and> \<bar>p\<bar> \<le> pow2 k"
proof -
  have b: "\<bar>round_double (x * y)\<bar> \<le> pow2 k"
    using assms(1,2) by (rule round_double_pow2_bound)
  also have "pow2 k \<le> pow2 1023" using assms(3) by (rule pow2_mono)
  finally have "\<not> 2 ^ 1024 \<le> \<bar>round_double (x * y)\<bar>" using big_bound by linarith
  then show ?thesis using b by (simp add: float_mul_def Let_def)
qed

lemma float_mul_int_bounded:
  assumes "\<bar>s\<bar> \<le> 1" and "0 \<le> h" and "h \<le> 2 ^ 53"
  shows "\<exists>p. float_mul s (real_of_int h) = Finite p \<and> \<bar>p\<bar> \<le> real_of_int h"
proof -
  have "\<bar>s * real_of_int h\<bar> = \<bar>s\<bar> * real_of_int h" using assms(2) by (simp add: abs_mult)
  also have "\<dots> \<le> 1 * real_of_int h" using assms(1,2) by (intro mult_right_mono) simp_all
  finally have "\<bar>s * real_of_int h\<bar> \<le> real_of_int h" by simp
  then have b: "\<bar>round_double (s * real_of_int h)\<bar> \<le> real_of_int h"
    using assms(3) by (rule round_double_int_bound)
  have "real_of_int h \<le> real_of_int (2 ^ 53)" using assms(3) by (simp only: of_int_le_iff)
  then have "real_of_int h \<le> 2 ^ 53" by simp
  also have "(2::real) ^ 53 < 2 ^ 1024" by simp
  finally have "\<not> 2 ^ 1024 \<le> \<bar>round_double (s * real_of_int h)\<bar>" using b by linarith
  then show ?thesis using b by (simp add: float_mul_def Let_def)
qed

lemma float_mul_zero: "float_mul 0 y = Finite 0"
  by (simp add: float_mul_def round_double_zero)

lemma int_true_div_zero: "d \<noteq> 0 \<Longrightarrow> int_true_div 0 d = Inr 0"
  by (simp add: int_true_div_def round_double_zero)

lemma int_true_div_unit:
  assumes "0 \<le> n" and "n < d"
  shows "\<exists>q. int_true_div n d = Inr q \<and> \<bar>q\<bar> \<le> 1"
proof -
  have d: "0 < real_of_int d" using assms by linarith
  have "\<bar>real_of_int n / real_of_int d\<bar> = real_of_int n / real_of_int d"
    using assms d by simp
  also have "\<dots> \<le> 1" using assms d by (simp add: pos_divide_le_eq)
  finally have "\<bar>real_of_int n / real_of_int d\<bar> \<le> pow2 0" by (simp add: pow2_numeral)
  then have b: "\<bar>round_double (real_of_int n / real_of_int d)\<bar> \<le> pow2 0"
    by (rule round_double_pow2_bound) simp
  then have "\<not> 2 ^ 1024 \<le> \<bar>round_double (real_of_int n / real_of_int d)\<bar>"
    by (simp add: pow2_numeral)
  then show ?thesis using b assms by (auto simp: int_true_div_def Let_def pow2_numeral)
qed

section \<open>Properties of the motion model\<close>

lemma py_int_zero: "py_int 0 = 0"
  by (simp add: py_int_def)

lemma py_int_abs_le:
  assumes "\<bar>x\<bar> \<le> real_of_int k"
  shows "\<bar>py_int x\<bar> \<le> k"
proof (cases "x < 0")
  case True
  have "- real_of_int k \<le> x" using assms by linarith
  then have "- k \<le> \<lceil>x\<rceil>" by (simp add: le_ceiling_iff)
  moreover have "\<lceil>x\<rceil> \<le> 0" using True by (simp add: ceiling_le_iff)
  ultimately show ?thesis using True by (simp add: py_int_def)
next
  case False
  have "x \<le> real_of_int k" using assms by linarith
  then have "\<lfloor>x\<rfloor> \<le> k" by (simp add: floor_le_iff)
  moreover have "0 \<le> \<lfloor>x\<rfloor>" using False by simp
  ultimately show ?thesis using False by (simp add: py_int_def)
qed

lemma py_int_truncates:
  "\<bar>real_of_int (py_int x)\<bar> \<le> \<bar>x\<bar> \<and> \<bar>x\<bar> < \<bar>real_of_int (py_int x)\<bar> + 1"
proof (cases "x < 0")
  case True
  have "real_of_int \<lceil>x\<rceil> \<le> 0" using True by (simp add: ceiling_le_iff)
  moreover have "x \<le> real_of_int \<lceil>x\<rceil>" "real_of_int \<lceil>x\<rceil> < x + 1" by linarith+
  ultimately show ?thesis using True by (simp add: py_int_def)
next
  case False
  have "0 \<le> real_of_int \<lfloor>x\<rfloor>" using False by simp
  moreover have "real_of_int \<lfloor>x\<rfloor> \<le> x" "x < real_of_int \<lfloor>x\<rfloor> + 1" by linarith+
  ultimately show ?thesis using False by (simp add: py_int_def)
qed

lemma py_int_unit: "0 \<le> x \<Longrightarrow> x < 1 \<Longrightarrow> py_int x = 0"
  by (simp add: py_int_def floor_eq_iff)

lemma round_one: "1 / 2 \<le> x \<Longrightarrow> x < 3 / 2 \<Longrightarrow> round x = 1"
  by (simp add: round_def floor_eq_iff)

lemma sin_third_pi_bounds: "1 / 2 \<le> sin (pi / 3)" "sin (pi / 3) < 1"
proof -
  have lo: "1 < sqrt 3" by (simp add: real_less_rsqrt)
  have hi: "sqrt 3 < 2" by (simp add: real_less_lsqrt)
  have s: "sin (pi / 3) = sqrt 3 / 2" by (rule sin_60)
  show "1 / 2 \<le> sin (pi / 3)" unfolding s using lo by linarith
  show "sin (pi / 3) < 1" unfolding s using hi by linarith
qed

text \<open>What a returned offset was computed from.\<close>

lemma bob_offset_Inr:
  assumes "bob_offset env a i = Inr off"
  shows "\<exists>q q2 angle h p.
           int_true_div i (frame_count a) = Inr q \<and> float_mul q 2 = Finite q2
           \<and> float_mul q2 math_pi = Finite angle \<and> bob_angle a i = Inr (Finite angle)
           \<and> float_of_int (bob_height a) = Inr h
           \<and> float_mul (math_sin env angle) h = Finite p \<and> off = py_int p"
  using assms
  by (auto simp: bob_offset_def bob_angle_def split: sum.splits pyfloat.splits)

lemma bob_offset_steps:
  assumes "int_true_div i (frame_count a) = Inr q" and "float_mul q 2 = Finite q2"
    and "float_mul q2 math_pi = Finite angle" and "float_of_int (bob_height a) = Inr h"
    and "float_mul (math_sin env angle) h = Finite p"
  shows "bob_offset env a i = Inr (py_int p)"
  using assms by (simp add: bob_offset_def bob_angle_def)

lemma bob_angle_zero: "frame_count a \<noteq> 0 \<Longrightarrow> bob_angle a 0 = Inr (Finite 0)"
  by (simp add: bob_angle_def int_true_div_zero float_mul_zero)

lemma bob_offset_zero:
  assumes "frame_count a \<noteq> 0" and "math_sin env 0 = 0" and "float_of_int (bob_height a) = Inr h"
  shows "bob_offset env a 0 = Inr 0"
  using assms
  by (simp add: bob_offset_def bob_angle_zero float_mul_zero py_int_zero)

lemma bob_offset_bounded:
  assumes "unit_sine env" and "0 \<le> bob_height a" and "bob_height a \<le> 2 ^ 53"
    and "bob_offset env a i = Inr off"
  shows "\<bar>off\<bar> \<le> bob_height a"
proof -
  obtain angle h p where h: "float_of_int (bob_height a) = Inr h"
    and p: "float_mul (math_sin env angle) h = Finite p" and off: "off = py_int p"
    using bob_offset_Inr [OF assms(4)] by blast
  have "\<bar>bob_height a\<bar> \<le> 2 ^ 53" using assms(2,3) by simp
  then have "h = real_of_int (bob_height a)" using h by (simp add: float_of_int_exact)
  moreover have "\<bar>math_sin env angle\<bar> \<le> 1" using assms(1) by (simp add: unit_sine_def)
  ultimately have "\<bar>p\<bar> \<le> real_of_int (bob_height a)"
    using float_mul_int_bounded [OF _ assms(2,3), of "math_sin env angle"] p by auto
  then show ?thesis unfolding off by (rule py_int_abs_le)
qed

lemma math_pi_bounds: "0 \<le> math_pi" "math_pi \<le> 4"
  by (simp_all add: math_pi_def)

lemma bob_offset_defined:
  assumes "unit_sine env" and "0 \<le> bob_height a" and "bob_height a \<le> 2 ^ 53"
    and "0 \<le> i" and "i < frame_count a"
  shows "\<exists>off. bob_offset env a i = Inr off"
proof -
  obtain q where q: "int_true_div i (frame_count a) = Inr q" "\<bar>q\<bar> \<le> 1"
    using int_true_div_unit [OF assms(4,5)] by blast
  have "\<bar>q * 2\<bar> \<le> pow2 1" using q(2) by (simp add: pow2_numeral abs_mult)
  then obtain q2 where q2: "float_mul q 2 = Finite q2" "\<bar>q2\<bar> \<le> pow2 1"
    using float_mul_bounded [of q 2 1] by auto
  have "\<bar>q2 * math_pi\<bar> = \<bar>q2\<bar> * math_pi" using math_pi_bounds by (simp add: abs_mult)
  also have "\<dots> \<le> 2 * 4"
    using q2(2) math_pi_bounds by (intro mult_mono) (simp_all add: pow2_numeral)
  finally have "\<bar>q2 * math_pi\<bar> \<le> pow2 3" by (simp add: pow2_numeral)
  then obtain angle where angle: "float_mul q2 math_pi = Finite angle"
    using float_mul_bounded [of q2 math_pi 3] by auto
  have "\<bar>bob_height a\<bar> \<le> 2 ^ 53" using assms(2,3) by simp
  then have h: "float_of_int (bob_height a) = Inr (real_of_int (bob_height a))"
    by (rule float_of_int_exact)
  have "\<bar>math_sin env angle\<bar> \<le> 1" using assms(1) by (simp add: unit_sine_def)
  then obtain p where "float_mul (math_sin env angle) (real_of_int (bob_height a)) = Finite p"
    using float_mul_int_bounded [OF _ assms(2,3)] by blast
  with q(1) q2(1) angle h have "bob_offset env a i = Inr (py_int p)"
    by (rule bob_offset_steps)
  then show ?thesis by blast
qed

text \<open>The sample host.\<close>

lemma host_unit_sine: "unit_sine host"
proof -
  have "\<bar>round_double (sin x)\<bar> \<le> 1" for x :: real
    using round_double_pow2_bound [of "sin x" 0] by (simp add: pow2_numeral)
  then show ?thesis by (simp add: unit_sine_def host_def libm_sin_def)
qed

lemma host_sin_zero: "math_sin host 0 = 0"
  by (simp add: host_def libm_sin_def round_double_zero)

lemma fresh_fields:
  "png_path fresh = ''square.png''" "frames fresh = []" "frame_count fresh = 30"
  "bob_height fresh = 10" "use_multiprocessing fresh" "max_workers fresh = 8"
  by (simp_all add: fresh_def init_def host_def)


lemma twelve_fields:
  "frame_count twelve = 12" "bob_height twelve = 1"
  "frame_count twelve_ten = 12" "bob_height twelve_ten = 10"
  by (simp_all add: twelve_def twelve_ten_def fresh_def init_def set_animation_params_def)

lemma tall_fields: "frame_count tall = 4" "bob_height tall = 9007199254740995"
  by (simp_all add: tall_def fresh_def init_def set_animation_params_def)

text \<open>Frame 1 of 12: the angle is the double \<open>0.5235987755982988\<close>, short of \<open>\<pi> / 6\<close>.\<close>

lemma angle_one_of_twelve:
  "int_true_div 1 12 = Inr (6004799503160661 / 72057594037927936)"
  "float_mul (6004799503160661 / 72057594037927936) 2 = Finite (6004799503160661 / 36028797018963968)"
  "float_mul (6004799503160661 / 36028797018963968) math_pi
     = Finite (4716158501352293 / 9007199254740992)"
proof -
  have "int_true_div 1 12 =
      Inr (real_of_int (round_half_even (real_of_int 1 / real_of_int 12 / pow2 (- 4 - 52)))
           * pow2 (- 4 - 52))"
    by (rule int_true_div_eval) (simp_all add: pow2_numeral)
  moreover have "round_half_even (real_of_int 1 / real_of_int 12 / pow2 (- 4 - 52)) = 6004799503160661"
    by (simp add: round_half_even_def Let_def pow2_numeral)
  ultimately show "int_true_div 1 12 = Inr (6004799503160661 / 72057594037927936)"
    by (simp add: pow2_numeral)
  have "float_mul (6004799503160661 / 72057594037927936) 2 =
      Finite (real_of_int (round_half_even (6004799503160661 / 72057594037927936 * 2 / pow2 (- 3 - 52)))
              * pow2 (- 3 - 52))"
    by (rule float_mul_eval) (simp_all add: pow2_numeral)
  moreover have "round_half_even (6004799503160661 / 72057594037927936 * 2 / pow2 (- 3 - 52))
      = 6004799503160661"
    by (simp add: round_half_even_def Let_def pow2_numeral)
  ultimately show "float_mul (6004799503160661 / 72057594037927936) 2
      = Finite (6004799503160661 / 36028797018963968)"
    by (simp add: pow2_numeral)
  have "float_mul (6004799503160661 / 36028797018963968) math_pi =
      Finite (real_of_int (round_half_even (6004799503160661 / 36028797018963968 * math_pi / pow2 (- 1 - 52)))
              * pow2 (- 1 - 52))"
    by (rule float_mul_eval) (simp_all add: pow2_numeral math_pi_def)
  moreover have "round_half_even (6004799503160661 / 36028797018963968 * math_pi / pow2 (- 1 - 52))
      = 4716158501352293"
    by (simp add: round_half_even_def Let_def pow2_numeral math_pi_def)
  ultimately show "float_mul (6004799503160661 / 36028797018963968) math_pi
      = Finite (4716158501352293 / 9007199254740992)"
    by (simp add: pow2_numeral)
qed

lemma offset_one_of_twelve_ten: "bob_offset host twelve_ten 1 = Inr 4"
proof -
  have s: "math_sin host (4716158501352293 / 9007199254740992) = 9007199254740991 / 18014398509481984"
    by (simp add: host_def libm_sin_def)
  have h: "float_of_int (bob_height twelve_ten) = Inr 10"
    using float_of_int_exact [of 10] by (simp add: twelve_fields)
  have "float_mul (9007199254740991 / 18014398509481984) 10 =
      Finite (real_of_int (round_half_even (9007199254740991 / 18014398509481984 * 10 / pow2 (2 - 52)))
              * pow2 (2 - 52))"
    by (rule float_mul_eval) (simp_all add: pow2_numeral)
  moreover have "round_half_even (9007199254740991 / 18014398509481984 * 10 / pow2 (2 - 52))
      = 5629499534213119"
    by (simp add: round_half_even_def Let_def pow2_numeral)
  ultimately have p: "float_mul (math_sin host (4716158501352293 / 9007199254740992)) 10
      = Finite (5629499534213119 / 1125899906842624)"
    by (simp add: pow2_numeral s)
  have "bob_offset host twelve_ten 1 = Inr (py_int (5629499534213119 / 1125899906842624))"
    using angle_one_of_twelve h p
    by (intro bob_offset_steps) (simp_all add: twelve_fields)
  moreover have "py_int (5629499534213119 / 1125899906842624) = 4"
    by (simp add: py_int_def floor_eq_iff)
  ultimately show ?thesis by simp
qed

text \<open>Frame 2 of 12: the angle is the double \<open>1.0471975511965976\<close>.\<close>

lemma angle_two_of_twelve:
  "int_true_div 2 12 = Inr (6004799503160661 / 36028797018963968)"
  "float_mul (6004799503160661 / 36028797018963968) 2 = Finite (6004799503160661 / 18014398509481984)"
  "float_mul (6004799503160661 / 18014398509481984) math_pi
     = Finite (4716158501352293 / 4503599627370496)"
proof -
  have "int_true_div 2 12 =
      Inr (real_of_int (round_half_even (real_of_int 2 / real_of_int 12 / pow2 (- 3 - 52)))
           * pow2 (- 3 - 52))"
    by (rule int_true_div_eval) (simp_all add: pow2_numeral)
  moreover have "round_half_even (real_of_int 2 / real_of_int 12 / pow2 (- 3 - 52)) = 6004799503160661"
    by (simp add: round_half_even_def Let_def pow2_numeral)
  ultimately show "int_true_div 2 12 = Inr (6004799503160661 / 36028797018963968)"
    by (simp add: pow2_numeral)
  have "float_mul (6004799503160661 / 36028797018963968) 2 =
      Finite (real_of_int (round_half_even (6004799503160661 / 36028797018963968 * 2 / pow2 (- 2 - 52)))
              * pow2 (- 2 - 52))"
    by (rule float_mul_eval) (simp_all add: pow2_numeral)
  moreover have "round_half_even (6004799503160661 / 36028797018963968 * 2 / pow2 (- 2 - 52))
      = 6004799503160661"
    by (simp add: round_half_even_def Let_def pow2_numeral)
  ultimately show "float_mul (6004799503160661 / 36028797018963968) 2
      = Finite (6004799503160661 / 18014398509481984)"
    by (simp add: pow2_numeral)
  have "float_mul (6004799503160661 / 18014398509481984) math_pi =
      Finite (real_of_int (round_half_even (6004799503160661 / 18014398509481984 * math_pi / pow2 (0 - 52)))
              * pow2 (0 - 52))"
    by (rule float_mul_eval) (simp_all add: pow2_numeral math_pi_def)
  moreover have "round_half_even (6004799503160661 / 18014398509481984 * math_pi / pow2 (0 - 52))
      = 4716158501352293"
    by (simp add: round_half_even_def Let_def pow2_numeral math_pi_def)
  ultimately show "float_mul (6004799503160661 / 18014398509481984) math_pi
      = Finite (4716158501352293 / 4503599627370496)"
    by (simp add: pow2_numeral)
qed

lemma offset_two_of_twelve: "bob_offset host twelve 2 = Inr 0"
proof -
  have s: "math_sin host (4716158501352293 / 4503599627370496) = 3900231685776981 / 4503599627370496"
    by (simp add: host_def libm_sin_def)
  have h: "float_of_int (bob_height twelve) = Inr 1"
    using float_of_int_exact [of 1] by (simp add: twelve_fields)
  have "float_mul (3900231685776981 / 4503599627370496) 1 =
      Finite (real_of_int (round_half_even (3900231685776981 / 4503599627370496 * 1 / pow2 (- 1 - 52)))
              * pow2 (- 1 - 52))"
    by (rule float_mul_eval) (simp_all add: pow2_numeral)
  moreover have "round_half_even (3900231685776981 / 4503599627370496 * 1 / pow2 (- 1 - 52))
      = 7800463371553962"
    by (simp add: round_half_even_def Let_def pow2_numeral)
  ultimately have p: "float_mul (math_sin host (4716158501352293 / 4503599627370496)) 1
      = Finite (3900231685776981 / 4503599627370496)"
    by (simp add: pow2_numeral s)
  have "bob_offset host twelve 2 = Inr (py_int (3900231685776981 / 4503599627370496))"
    using angle_two_of_twelve h p
    by (intro bob_offset_steps) (simp_all add: twelve_fields)
  moreover have "py_int (3900231685776981 / 4503599627370496) = 0"
    by (simp add: py_int_def floor_eq_iff)
  ultimately show ?thesis by simp
qed

text \<open>Frame 1 of 4 with a bob height of \<open>2 ^ 53 + 3\<close>, which converts to \<open>2 ^ 53 + 4\<close>.\<close>

lemma offset_one_of_four_tall: "bob_offset host tall 1 = Inr 9007199254740996"
proof -
  have q: "int_true_div 1 4 = Inr (1 / 4)"
  proof -
    have "int_true_div 1 4 =
        Inr (real_of_int (round_half_even (real_of_int 1 / real_of_int 4 / pow2 (- 2 - 52)))
             * pow2 (- 2 - 52))"
      by (rule int_true_div_eval) (simp_all add: pow2_numeral)
    moreover have "round_half_even (real_of_int 1 / real_of_int 4 / pow2 (- 2 - 52)) = 4503599627370496"
      by (simp add: round_half_even_def Let_def pow2_numeral)
    ultimately show ?thesis by (simp add: pow2_numeral)
  qed
  have q2: "float_mul (1 / 4) 2 = Finite (1 / 2)"
  proof -
    have "float_mul (1 / 4) 2 =
        Finite (real_of_int (round_half_even (1 / 4 * 2 / pow2 (- 1 - 52))) * pow2 (- 1 - 52))"
      by (rule float_mul_eval) (simp_all add: pow2_numeral)
    moreover have "round_half_even (1 / 4 * 2 / pow2 (- 1 - 52)) = 4503599627370496"
      by (simp add: round_half_even_def Let_def pow2_numeral)
    ultimately show ?thesis by (simp add: pow2_numeral)
  qed
  have an: "float_mul (1 / 2) math_pi = Finite (884279719003555 / 562949953421312)"
  proof -
    have "float_mul (1 / 2) math_pi =
        Finite (real_of_int (round_half_even (1 / 2 * math_pi / pow2 (0 - 52))) * pow2 (0 - 52))"
      by (rule float_mul_eval) (simp_all add: pow2_numeral math_pi_def)
    moreover have "round_half_even (1 / 2 * math_pi / pow2 (0 - 52)) = 7074237752028440"
      by (simp add: round_half_even_def Let_def pow2_numeral math_pi_def)
    ultimately show ?thesis by (simp add: pow2_numeral)
  qed
  have s: "math_sin host (884279719003555 / 562949953421312) = 1"
    by (simp add: host_def libm_sin_def)
  have r: "round_double (real_of_int 9007199254740995) = 9007199254740996"
  proof -
    have "round_double (real_of_int 9007199254740995) =
        real_of_int (round_half_even (real_of_int 9007199254740995 / pow2 (53 - 52))) * pow2 (53 - 52)"
      by (rule round_double_eval) (simp_all add: pow2_numeral)
    moreover have "round_half_even (real_of_int 9007199254740995 / pow2 (53 - 52)) = 4503599627370498"
      by (simp add: round_half_even_def Let_def pow2_numeral)
    ultimately show ?thesis by (simp add: pow2_numeral)
  qed
  have h: "float_of_int (bob_height tall) = Inr 9007199254740996"
    using r by (simp add: float_of_int_def Let_def tall_fields)
  have p: "float_mul (math_sin host (884279719003555 / 562949953421312)) 9007199254740996
      = Finite 9007199254740996"
  proof -
    have "float_mul 1 9007199254740996 =
        Finite (real_of_int (round_half_even (1 * 9007199254740996 / pow2 (53 - 52))) * pow2 (53 - 52))"
      by (rule float_mul_eval) (simp_all add: pow2_numeral)
    moreover have "round_half_even (1 * 9007199254740996 / pow2 (53 - 52)) = 4503599627370498"
      by (simp add: round_half_even_def Let_def pow2_numeral)
    ultimately show ?thesis by (simp add: pow2_numeral s)
  qed
  have "bob_offset host tall 1 = Inr (py_int 9007199254740996)"
    using q q2 an h p by (intro bob_offset_steps) (simp_all add: tall_fields)
  moreover have "py_int 9007199254740996 = 9007199254740996"
    by (simp add: py_int_def)
  ultimately show ?thesis by simp
qed

text \<open>
  Claim C1, as stated: the motion model returns \<open>round(sin(angle) \<sqdot> bobHeight)\<close>. At
  frame 2 of 12 with a bob height of 1 the product is the double \<open>0.8660254037844386\<close>:
  the code truncates it to 0, rounding \<open>sin (\<pi>/3)\<close> gives 1.
\<close>

theorem bob_offset_rounding_counterexample:
  "bob_offset host twelve 2 = Inr 0 \<and> spec_offset 2 (frame_count twelve) (bob_height twelve) = 1"
proof -
  have "spec_offset 2 12 1 = 1"
  proof -
    have "2 * pi * real_of_int 2 / real_of_int 12 = pi / 3" by simp
    then have "spec_offset 2 12 1 = round (sin (pi / 3))" by (simp add: spec_offset_def)
    also have "\<dots> = 1" using sin_third_pi_bounds by (intro round_one) linarith+
    finally show ?thesis .
  qed
  then show ?thesis using offset_two_of_twelve by (simp add: twelve_fields)
qed

text \<open>
  Claim C1, amended: for every frame count of at least 1, every bob height and every frame
  index at which the computation raises nothing, the angle is
  \<open>((frameIndex / frameCount) \<sqdot> 2) \<sqdot> math.pi\<close> and the offset is
  \<open>sin(angle) \<sqdot> bobHeight\<close>, each operation rounded to a double, truncated towards zero
  and not rounded. Nothing is raised for an index from 0 below the frame count and a bob
  height from 0 to \<open>2 ^ 53\<close> when the library's sine stays within \<open>[-1, 1]\<close>. At frame index
  0 the offset is exactly 0 whenever the bob height converts to a float and the library's
  sine of 0 is 0, and the angle at index 0 is 0, for a frame count of 1 as for any other.
\<close>

theorem bob_offset_truncates:
  assumes "1 \<le> frame_count a"
  shows "(\<forall>off. bob_offset env a i = Inr off \<longrightarrow>
            (\<exists>q q2 angle h p.
               int_true_div i (frame_count a) = Inr q \<and> float_mul q 2 = Finite q2
               \<and> float_mul q2 math_pi = Finite angle \<and> bob_angle a i = Inr (Finite angle)
               \<and> float_of_int (bob_height a) = Inr h
               \<and> float_mul (math_sin env angle) h = Finite p
               \<and> off = py_int p
               \<and> \<bar>real_of_int off\<bar> \<le> \<bar>p\<bar> \<and> \<bar>p\<bar> < \<bar>real_of_int off\<bar> + 1))
       \<and> (unit_sine env \<and> 0 \<le> bob_height a \<and> bob_height a \<le> 2 ^ 53 \<and> 0 \<le> i \<and> i < frame_count a
            \<longrightarrow> (\<exists>off. bob_offset env a i = Inr off))
       \<and> (math_sin env 0 = 0 \<and> (\<exists>h. float_of_int (bob_height a) = Inr h)
            \<longrightarrow> bob_offset env a 0 = Inr 0)
       \<and> bob_angle a 0 = Inr (Finite 0)"
proof (intro conjI allI impI)
  fix off assume "bob_offset env a i = Inr off"
  from bob_offset_Inr [OF this] py_int_truncates
  show "\<exists>q q2 angle h p.
               int_true_div i (frame_count a) = Inr q \<and> float_mul q 2 = Finite q2
               \<and> float_mul q2 math_pi = Finite angle \<and> bob_angle a i = Inr (Finite angle)
               \<and> float_of_int (bob_height a) = Inr h
               \<and> float_mul (math_sin env angle) h = Finite p
               \<and> off = py_int p
               \<and> \<bar>real_of_int off\<bar> \<le> \<bar>p\<bar> \<and> \<bar>p\<bar> < \<bar>real_of_int off\<bar> + 1"
    by blast
next
  assume "unit_sine env \<and> 0 \<le> bob_height a \<and> bob_height a \<le> 2 ^ 53 \<and> 0 \<le> i \<and> i < frame_count a"
  then show "\<exists>off. bob_offset env a i = Inr off" using bob_offset_defined by blast
next
  assume "math_sin env 0 = 0 \<and> (\<exists>h. float_of_int (bob_height a) = Inr h)"
  then show "bob_offset env a 0 = Inr 0" using assms bob_offset_zero [of a env] by auto
next
  show "bob_angle a 0 = Inr (Finite 0)" using assms by (intro bob_angle_zero) simp
qed

theorem bob_offset_truncates_witness:
  "1 \<le> frame_count twelve_ten \<and> unit_sine host \<and> 0 \<le> bob_height twelve_ten
   \<and> bob_height twelve_ten \<le> 2 ^ 53 \<and> math_sin host 0 = 0
   \<and> float_of_int (bob_height twelve_ten) = Inr 10
   \<and> bob_offset host twelve_ten 1 = Inr 4
   \<and> (\<exists>angle p. bob_angle twelve_ten 1 = Inr (Finite angle)
         \<and> float_mul (math_sin host angle) 10 = Finite p \<and> py_int p = 4 \<and> 4 \<le> \<bar>p\<bar> \<and> \<bar>p\<bar> < 5)
   \<and> bob_offset host twelve_ten 0 = Inr 0 \<and> bob_angle twelve_ten 0 = Inr (Finite 0)"
proof -
  have fc: "1 \<le> frame_count twelve_ten" and bh: "0 \<le> bob_height twelve_ten"
    "bob_height twelve_ten \<le> 2 ^ 53"
    by (simp_all add: twelve_fields)
  have h: "float_of_int (bob_height twelve_ten) = Inr 10"
    using float_of_int_exact [of 10] by (simp add: twelve_fields)
  note t = bob_offset_truncates [OF fc, of host 1]
  from t offset_one_of_twelve_ten obtain angle h' p where
    s: "bob_angle twelve_ten 1 = Inr (Finite angle)"
      "float_of_int (bob_height twelve_ten) = Inr h'"
      "float_mul (math_sin host angle) h' = Finite p" "4 = py_int p"
      "\<bar>real_of_int 4\<bar> \<le> \<bar>p\<bar>" "\<bar>p\<bar> < \<bar>real_of_int 4\<bar> + 1"
    by blast
  have "h' = 10" using s(2) h by simp
  then have 1: "\<exists>angle p. bob_angle twelve_ten 1 = Inr (Finite angle)
         \<and> float_mul (math_sin host angle) 10 = Finite p \<and> py_int p = 4 \<and> 4 \<le> \<bar>p\<bar> \<and> \<bar>p\<bar> < 5"
    using s by auto
  have 2: "bob_offset host twelve_ten 0 = Inr 0" "bob_angle twelve_ten 0 = Inr (Finite 0)"
    using bob_offset_truncates [OF fc, of host 0] host_sin_zero h by auto
  show ?thesis
    using fc bh h host_unit_sine host_sin_zero offset_one_of_twelve_ten 1 2 by blast
qed

text \<open>
  Claim C5, as stated: the offset never exceeds the bob height. With four frames and a
  bob height of \<open>2 ^ 53 + 3\<close>, which becomes the double \<open>2 ^ 53 + 4\<close>, the offset of frame 1
  is \<open>2 ^ 53 + 4\<close>.
\<close>

theorem bob_offset_exceeds_counterexample:
  "1 \<le> frame_count tall \<and> 0 \<le> bob_height tall
   \<and> bob_offset host tall 1 = Inr 9007199254740996
   \<and> \<not> \<bar>9007199254740996\<bar> \<le> bob_height tall"
  using offset_one_of_four_tall by (simp add: tall_fields)

text \<open>
  Claim C5, amended: for every frame count of at least 1 and every bob height from 0 to
  \<open>2 ^ 53\<close>, when the library's sine stays within \<open>[-1, 1]\<close>, every offset the motion model
  returns is at most the bob height in absolute value, and it returns one for every frame
  index from 0 below the frame count.
\<close>

theorem bob_offset_within_bob_height:
  assumes "1 \<le> frame_count a" and "0 \<le> bob_height a" and "bob_height a \<le> 2 ^ 53"
    and "unit_sine env"
  shows "(\<forall>off. bob_offset env a i = Inr off \<longrightarrow> \<bar>off\<bar> \<le> bob_height a)
       \<and> (0 \<le> i \<and> i < frame_count a \<longrightarrow>
            (\<exists>off. bob_offset env a i = Inr off \<and> \<bar>off\<bar> \<le> bob_height a))"
proof -
  have b: "\<bar>off\<bar> \<le> bob_height a" if "bob_offset env a i = Inr off" for off
    using assms(4,2,3) that by (rule bob_offset_bounded)
  have "\<exists>off. bob_offset env a i = Inr off" if "0 \<le> i \<and> i < frame_count a"
    using assms(4,2,3) that bob_offset_defined by blast
  with b show ?thesis by blast
qed

theorem bob_offset_within_bob_height_witness:
  "1 \<le> frame_count twelve_ten \<and> 0 \<le> bob_height twelve_ten \<and> bob_height twelve_ten \<le> 2 ^ 53
   \<and> unit_sine host \<and> bob_offset host twelve_ten 1 = Inr 4 \<and> \<bar>4\<bar> \<le> bob_height twelve_ten
   \<and> (\<exists>off. bob_offset host twelve_ten 7 = Inr off \<and> \<bar>off\<bar> \<le> 10)"
proof -
  have fc: "1 \<le> frame_count twelve_ten" and bh: "0 \<le> bob_height twelve_ten"
    "bob_height twelve_ten \<le> 2 ^ 53" and b: "bob_height twelve_ten = 10"
    by (simp_all add: twelve_fields)
  have 1: "\<bar>4\<bar> \<le> bob_height twelve_ten"
    using bob_offset_within_bob_height [OF fc bh host_unit_sine, of 1] offset_one_of_twelve_ten
    by blast
  have "(0::int) \<le> 7 \<and> 7 < frame_count twelve_ten" by (simp add: twelve_fields)
  then have 2: "\<exists>off. bob_offset host twelve_ten 7 = Inr off \<and> \<bar>off\<bar> \<le> 10"
    using bob_offset_within_bob_height [OF fc bh host_unit_sine, of 7] b by auto
  show ?thesis using fc bh host_unit_sine offset_one_of_twelve_ten 1 2 by blast
qed

section \<open>Properties of the compositor\<close>

lemma getpixel_paste_pixels:
  "cx < width canvas \<Longrightarrow> cy < height canvas \<Longrightarrow>
   getpixel (paste_pixels mix canvas sz box) (cx, cy) =
     (if 0 \<le> int cx - fst box \<and> int cx - fst box < int (fst sz)
         \<and> 0 \<le> int cy - snd box \<and> int cy - snd box < int (snd sz)
      then mix (getpixel canvas (cx, cy)) (nat (int cx - fst box), nat (int cy - snd box))
      else getpixel canvas (cx, cy))"
  by (simp add: paste_pixels_def getpixel_def Let_def)

lemma paste_pixels_shape:
  "mode (paste_pixels mix canvas sz box) = mode canvas"
  "width (paste_pixels mix canvas sz box) = width canvas"
  "height (paste_pixels mix canvas sz box) = height canvas"
  "decode (paste_pixels mix canvas sz box) = decode canvas"
  "wf_image (paste_pixels mix canvas sz box)"
  by (simp_all add: paste_pixels_def wf_image_def list_all_iff)

lemma getpixel_blank:
  "cx < w \<Longrightarrow> cy < h \<Longrightarrow>
   getpixel \<lparr>mode = m, width = w, height = h, rows = replicate h (replicate w c), decode = d\<rparr>
     (cx, cy) = c"
  by (simp add: getpixel_def)

lemma Image_load_Inr:
  assumes "decodable img"
  shows "\<exists>loaded. Image_load img = Inr loaded \<and> mode loaded = mode img
           \<and> width loaded = width img \<and> height loaded = height img
           \<and> rows loaded = rows img \<and> decode loaded = Decoded"
  using assms
  by (auto simp: Image_load_def decodable_def split: decode_state.splits option.splits)

lemma Image_load_Inl: "\<not> decodable img \<Longrightarrow> \<exists>e. Image_load img = Inl e"
  by (auto simp: Image_load_def decodable_def split: decode_state.splits option.splits)

lemma Image_load_decoded: "decode img = Decoded \<Longrightarrow> Image_load img = Inr img"
  by (simp add: Image_load_def)

text \<open>An \<open>RGBA\<close> image pasted onto an \<open>RGBA\<close> canvas through its own alpha.\<close>

lemma paste_self_masked:
  assumes "mode canvas = RGBA" and "mode img = RGBA"
  shows "paste env canvas img box (Some img) =
     (if decodable img
      then Inr (paste_pixels (\<lambda>d xy. blend env d (getpixel img xy) (alpha (getpixel img xy)))
                  canvas (width img, height img) box)
      else Image_load img)"
proof (cases "decodable img")
  case True
  then obtain loaded where l: "Image_load img = Inr loaded" "mode loaded = mode img"
    "width loaded = width img" "height loaded = height img" "rows loaded = rows img"
    using Image_load_Inr by blast
  have "getpixel loaded = getpixel img" by (simp add: getpixel_def fun_eq_iff l)
  then show ?thesis
    using True assms l by (simp add: paste_def mask_band_def)
next
  case False
  then obtain e where "Image_load img = Inl e" using Image_load_Inl by blast
  then show ?thesis using False by (simp add: paste_def)
qed

text \<open>The frame of a decodable \<open>RGBA\<close> source, in one piece.\<close>

lemma create_frame_RGBA:
  assumes "mode img = RGBA" and "bob_offset env a i = Inr off"
    and "0 \<le> int (height img) + bob_height a * 2 + 20"
    and "new_failure env (int (width img) + 20, int (height img) + bob_height a * 2 + 20) = None"
    and "decodable img"
  shows "create_frame env a img i =
     Inr (paste_pixels (\<lambda>d xy. blend env d (getpixel img xy) (alpha (getpixel img xy)))
            \<lparr>mode = RGBA, width = width img + 20,
             height = nat (int (height img) + bob_height a * 2 + 20),
             rows = replicate (nat (int (height img) + bob_height a * 2 + 20))
                      (replicate (width img + 20) transparent),
             decode = Decoded\<rparr>
            (width img, height img) (10, 10 + bob_height a - off))"
proof -
  have w: "nat (int (width img) + 20) = width img + 20" by simp
  have n: "Image_new env RGBA (int (width img) + 20, int (height img) + bob_height a * 2 + 20)
             transparent =
      Inr \<lparr>mode = RGBA, width = width img + 20,
           height = nat (int (height img) + bob_height a * 2 + 20),
           rows = replicate (nat (int (height img) + bob_height a * 2 + 20))
                    (replicate (width img + 20) transparent),
           decode = Decoded\<rparr>"
    using assms(3,4) by (simp add: Image_new_def w)
  show ?thesis
    using assms(1,2,5) by (simp add: create_frame_def Let_def n paste_self_masked)
qed

lemma create_frame_Inr:
  assumes "mode img = RGBA" and "create_frame env a img i = Inr canvas"
  shows "\<exists>off. bob_offset env a i = Inr off
           \<and> 0 \<le> int (height img) + bob_height a * 2 + 20
           \<and> new_failure env (int (width img) + 20, int (height img) + bob_height a * 2 + 20) = None
           \<and> decodable img"
proof -
  obtain off where off: "bob_offset env a i = Inr off"
    using assms(2) by (cases "bob_offset env a i") (simp_all add: create_frame_def)
  obtain blank where n: "Image_new env RGBA
      (int (width img) + 20, int (height img) + bob_height a * 2 + 20) transparent = Inr blank"
    using assms(2) off
    by (cases "Image_new env RGBA
          (int (width img) + 20, int (height img) + bob_height a * 2 + 20) transparent")
       (simp_all add: create_frame_def Let_def)
  have m: "mode blank = RGBA"
    using n by (auto simp: Image_new_def split: if_splits option.splits)
  have "paste env blank img (10, 10 + bob_height a - off) (Some img) = Inr canvas"
    using assms(2) off n by (simp add: create_frame_def Let_def)
  then have d: "decodable img"
    using paste_self_masked [OF m assms(1)] Image_load_Inl [of img] by (cases "decodable img") auto
  from n have "0 \<le> int (height img) + bob_height a * 2 + 20"
    "new_failure env (int (width img) + 20, int (height img) + bob_height a * 2 + 20) = None"
    by (auto simp: Image_new_def split: if_splits option.splits)
  with off d show ?thesis by blast
qed

lemma create_frame_succeeds:
  assumes "unit_sine env" and "0 \<le> bob_height a" and "bob_height a \<le> 2 ^ 53"
    and "0 \<le> i" and "i < frame_count a" and "mode img = RGBA" and "decodable img"
    and "new_failure env (int (width img) + 20, int (height img) + bob_height a * 2 + 20) = None"
  shows "\<exists>f. create_frame env a img i = Inr f"
proof -
  obtain off where off: "bob_offset env a i = Inr off"
    using bob_offset_defined [OF assms(1-5)] by blast
  have "0 \<le> int (height img) + bob_height a * 2 + 20" using assms(2) by simp
  from create_frame_RGBA [OF assms(6) off this assms(8,7)] show ?thesis by blast
qed

text \<open>
  Claim C2: for every RGBA source image, every frame index, every bob height and every
  frame count, every frame that \<open>create_frame\<close> returns is an RGBA canvas of
  \<open>(sourceWidth + 20, sourceHeight + 2 \<sqdot> bobHeight + 20)\<close>, with the source's left edge at
  \<open>(canvasWidth - sourceWidth) div 2 = 10\<close> and its top edge at
  \<open>10 + bobHeight - offset\<close>, the offset being the one the motion model returns for that
  index; under the source each pixel is the source pixel mixed onto transparent through
  its own alpha, and every other pixel is \<open>(0, 0, 0, 0)\<close>. With a bob height of at least 0
  a frame is returned whenever the motion model returns an offset, the image can be
  decoded and the library holds the canvas, which is so for every index from 0 below the
  frame count when the bob height is at most \<open>2 ^ 53\<close> and the sine stays within
  \<open>[-1, 1]\<close>; and under these two conditions the source lies wholly inside the canvas.
\<close>

theorem create_frame_canvas:
  assumes "mode img = RGBA"
  shows "(\<forall>canvas. create_frame env a img i = Inr canvas \<longrightarrow>
           (\<exists>off. bob_offset env a i = Inr off
              \<and> mode canvas = RGBA \<and> wf_image canvas
              \<and> width canvas = width img + 20
              \<and> int (height canvas) = int (height img) + 2 * bob_height a + 20
              \<and> (int (width canvas) - int (width img)) div 2 = 10
              \<and> (\<forall>cx < width canvas. \<forall>cy < height canvas.
                   getpixel canvas (cx, cy) =
                     (if 10 \<le> cx \<and> cx < 10 + width img
                         \<and> 10 + bob_height a - off \<le> int cy
                         \<and> int cy < 10 + bob_height a - off + int (height img)
                      then blend env transparent
                             (getpixel img (cx - 10, nat (int cy - (10 + bob_height a - off))))
                             (alpha (getpixel img (cx - 10, nat (int cy - (10 + bob_height a - off)))))
                      else transparent))))
       \<and> (\<forall>off. bob_offset env a i = Inr off \<and> 0 \<le> bob_height a \<and> decodable img
              \<and> new_failure env (int (width img) + 20, int (height img) + bob_height a * 2 + 20) = None
            \<longrightarrow> (\<exists>canvas. create_frame env a img i = Inr canvas))
       \<and> (unit_sine env \<and> 0 \<le> bob_height a \<and> bob_height a \<le> 2 ^ 53
            \<and> 0 \<le> i \<and> i < frame_count a \<and> decodable img
            \<and> new_failure env (int (width img) + 20, int (height img) + bob_height a * 2 + 20) = None
            \<longrightarrow> (\<exists>canvas. create_frame env a img i = Inr canvas))
       \<and> (\<forall>off. bob_offset env a i = Inr off \<and> unit_sine env \<and> 0 \<le> bob_height a
              \<and> bob_height a \<le> 2 ^ 53
            \<longrightarrow> 0 \<le> 10 + bob_height a - off
                \<and> 10 + bob_height a - off + int (height img)
                     \<le> int (height img) + 2 * bob_height a + 20)"
proof (intro conjI allI impI)
  fix canvas assume cf: "create_frame env a img i = Inr canvas"
  from create_frame_Inr [OF assms cf] obtain off where off: "bob_offset env a i = Inr off"
    and hh: "0 \<le> int (height img) + bob_height a * 2 + 20"
    and nf: "new_failure env (int (width img) + 20, int (height img) + bob_height a * 2 + 20) = None"
    and d: "decodable img"
    by blast
  define ch where "ch = nat (int (height img) + bob_height a * 2 + 20)"
  define blank where "blank = \<lparr>mode = RGBA, width = width img + 20, height = ch,
      rows = replicate ch (replicate (width img + 20) transparent), decode = Decoded\<rparr>"
  have c: "canvas = paste_pixels (\<lambda>d xy. blend env d (getpixel img xy) (alpha (getpixel img xy)))
      blank (width img, height img) (10, 10 + bob_height a - off)"
    using create_frame_RGBA [OF assms off hh nf d] cf by (simp add: blank_def ch_def)
  have m: "mode canvas = RGBA" by (simp add: c paste_pixels_shape blank_def)
  have wf: "wf_image canvas" by (simp add: c paste_pixels_shape)
  have w: "width canvas = width img + 20" by (simp add: c paste_pixels_shape blank_def)
  have hc: "height canvas = ch" by (simp add: c paste_pixels_shape blank_def)
  have hi: "int (height canvas) = int (height img) + 2 * bob_height a + 20"
    using hh by (simp add: hc ch_def)
  have cen: "(int (width canvas) - int (width img)) div 2 = 10" by (simp add: w)
  have px: "getpixel canvas (cx, cy) =
          (if 10 \<le> cx \<and> cx < 10 + width img
              \<and> 10 + bob_height a - off \<le> int cy
              \<and> int cy < 10 + bob_height a - off + int (height img)
           then blend env transparent
                  (getpixel img (cx - 10, nat (int cy - (10 + bob_height a - off))))
                  (alpha (getpixel img (cx - 10, nat (int cy - (10 + bob_height a - off)))))
           else transparent)" if "cx < width canvas" "cy < height canvas" for cx cy
  proof -
    have k: "cx < width blank" "cy < height blank"
      using that by (simp_all add: w hc blank_def)
    have b: "getpixel blank (cx, cy) = transparent"
      using k unfolding blank_def by (simp add: getpixel_blank)
    have x: "nat (int cx - 10) = cx - 10" by simp
    show ?thesis
      unfolding c getpixel_paste_pixels [OF k]
      by (auto simp: b x)
  qed
  show "\<exists>off. bob_offset env a i = Inr off
              \<and> mode canvas = RGBA \<and> wf_image canvas
              \<and> width canvas = width img + 20
              \<and> int (height canvas) = int (height img) + 2 * bob_height a + 20
              \<and> (int (width canvas) - int (width img)) div 2 = 10
              \<and> (\<forall>cx < width canvas. \<forall>cy < height canvas.
                   getpixel canvas (cx, cy) =
                     (if 10 \<le> cx \<and> cx < 10 + width img
                         \<and> 10 + bob_height a - off \<le> int cy
                         \<and> int cy < 10 + bob_height a - off + int (height img)
                      then blend env transparent
                             (getpixel img (cx - 10, nat (int cy - (10 + bob_height a - off))))
                             (alpha (getpixel img (cx - 10, nat (int cy - (10 + bob_height a - off)))))
                      else transparent))"
    using off m wf w hi cen px by blast
next
  fix off
  assume h: "bob_offset env a i = Inr off \<and> 0 \<le> bob_height a \<and> decodable img
      \<and> new_failure env (int (width img) + 20, int (height img) + bob_height a * 2 + 20) = None"
  then have "0 \<le> int (height img) + bob_height a * 2 + 20" by simp
  with h show "\<exists>canvas. create_frame env a img i = Inr canvas"
    using create_frame_RGBA [OF assms, of env a i off] by blast
next
  assume "unit_sine env \<and> 0 \<le> bob_height a \<and> bob_height a \<le> 2 ^ 53
      \<and> 0 \<le> i \<and> i < frame_count a \<and> decodable img
      \<and> new_failure env (int (width img) + 20, int (height img) + bob_height a * 2 + 20) = None"
  then show "\<exists>canvas. create_frame env a img i = Inr canvas"
    using assms create_frame_succeeds by blast
next
  fix off
  assume h: "bob_offset env a i = Inr off \<and> unit_sine env \<and> 0 \<le> bob_height a
      \<and> bob_height a \<le> 2 ^ 53"
  then have "\<bar>off\<bar> \<le> bob_height a" using bob_offset_bounded by blast
  then show "0 \<le> 10 + bob_height a - off" by linarith
  from \<open>\<bar>off\<bar> \<le> bob_height a\<close>
  show "10 + bob_height a - off + int (height img) \<le> int (height img) + 2 * bob_height a + 20"
    by linarith
qed

theorem create_frame_canvas_witness:
  "mode square = RGBA \<and> bob_offset host twelve_ten 1 = Inr 4 \<and> 0 \<le> bob_height twelve_ten
   \<and> decodable square \<and> unit_sine host \<and> bob_height twelve_ten \<le> 2 ^ 53
   \<and> new_failure host (int (width square) + 20, int (height square) + bob_height twelve_ten * 2 + 20)
       = None
   \<and> (\<exists>canvas. create_frame host twelve_ten square 1 = Inr canvas
         \<and> width canvas = 84 \<and> height canvas = 104
         \<and> getpixel canvas (10, 15) = (0, 0, 0, 0)
         \<and> getpixel canvas (10, 16) = (255, 0, 0, 255)
         \<and> getpixel canvas (73, 79) = (255, 0, 0, 255)
         \<and> getpixel canvas (73, 80) = (0, 0, 0, 0)
         \<and> getpixel canvas (9, 16) = (0, 0, 0, 0))"
proof -
  have m: "mode square = RGBA" and d: "decodable square"
    by (simp_all add: square_def decodable_def)
  have bh: "0 \<le> bob_height twelve_ten" "bob_height twelve_ten \<le> 2 ^ 53"
    and b10: "bob_height twelve_ten = 10"
    by (simp_all add: twelve_fields)
  have sq: "width square = 64" "height square = 64"
    "\<And>x y. x < 64 \<Longrightarrow> y < 64 \<Longrightarrow> getpixel square (x, y) = (255, 0, 0, 255)"
    by (simp_all add: square_def getpixel_def)
  have nf: "new_failure host
      (int (width square) + 20, int (height square) + bob_height twelve_ten * 2 + 20) = None"
    by (simp add: host_def sq b10)
  have bl: "blend host transparent (255, 0, 0, 255) (alpha (255, 0, 0, 255)) = (255, 0, 0, 255)"
    by (simp add: host_def pillow_blend_def transparent_def alpha_def)
  note t = create_frame_canvas [OF m, of host twelve_ten 1]
  have "bob_offset host twelve_ten 1 = Inr 4 \<and> 0 \<le> bob_height twelve_ten \<and> decodable square
      \<and> new_failure host
            (int (width square) + 20, int (height square) + bob_height twelve_ten * 2 + 20) = None"
    using offset_one_of_twelve_ten bh d nf by simp
  with t [THEN conjunct2, THEN conjunct1]
  obtain canvas where cf: "create_frame host twelve_ten square 1 = Inr canvas" by blast
  from t [THEN conjunct1] cf obtain off where c: "bob_offset host twelve_ten 1 = Inr off"
    "width canvas = width square + 20"
    "int (height canvas) = int (height square) + 2 * bob_height twelve_ten + 20"
    and px: "\<And>cx cy. cx < width canvas \<Longrightarrow> cy < height canvas \<Longrightarrow>
        getpixel canvas (cx, cy) =
          (if 10 \<le> cx \<and> cx < 10 + width square
              \<and> 10 + bob_height twelve_ten - off \<le> int cy
              \<and> int cy < 10 + bob_height twelve_ten - off + int (height square)
           then blend host transparent
                  (getpixel square (cx - 10, nat (int cy - (10 + bob_height twelve_ten - off))))
                  (alpha (getpixel square (cx - 10, nat (int cy - (10 + bob_height twelve_ten - off)))))
           else transparent)"
    by blast
  have off: "off = 4" using c(1) offset_one_of_twelve_ten by simp
  have w: "width canvas = 84" using c(2) sq by simp
  have h: "height canvas = 104" using c(3) sq b10 by simp
  have p1: "getpixel canvas (10, 15) = (0, 0, 0, 0)"
    using px [of 10 15] by (simp add: w h sq b10 off transparent_def)
  have p2: "getpixel canvas (10, 16) = (255, 0, 0, 255)"
    using px [of 10 16] by (simp add: w h sq b10 off bl)
  have p3: "getpixel canvas (73, 79) = (255, 0, 0, 255)"
    using px [of 73 79] by (simp add: w h sq b10 off bl)
  have p4: "getpixel canvas (73, 80) = (0, 0, 0, 0)"
    using px [of 73 80] by (simp add: w h sq b10 off transparent_def)
  have p5: "getpixel canvas (9, 16) = (0, 0, 0, 0)"
    using px [of 9 16] by (simp add: w h sq transparent_def)
  show ?thesis
    using m offset_one_of_twelve_ten bh d host_unit_sine nf cf w h p1 p2 p3 p4 p5 by blast
qed

section \<open>Properties of frame generation\<close>




































section \<open>Properties of loading\<close>




section \<open>Properties of saving\<close>

text \<open>
  Claim C6: with an empty frame list \<open>save_gif\<close> raises (a ValueError, \<open>No frames to
  save\<close>) and writes no file.
\<close>

theorem save_gif_no_frames: "frames a = [] \<Longrightarrow> save_gif env a fs = (fs, Some (ValueError, ''No frames to save''))"
  by (simp add: save_gif_def)

theorem save_gif_no_frames_witness:
  "frames fresh = [] \<and> save_gif host fresh Map.empty = (Map.empty, Some (ValueError, ''No frames to save''))"
  using save_gif_no_frames [of fresh host Map.empty] by (simp add: fresh_fields)

lemma save_standard_gif_outcome:
  assumes "frames a \<noteq> []"
  shows "save_standard_gif env a fs =
       (case save_failure env (output_path a)
               \<lparr>gif_frames = frames a, gif_duration = frame_duration a, gif_loop = 0,
                gif_disposal = 2, gif_optimize = True, gif_transparency = Some 0\<rparr> of
          None \<Rightarrow> (fs(output_path a \<mapsto>
                      \<lparr>gif_frames = frames a, gif_duration = frame_duration a, gif_loop = 0,
                       gif_disposal = 2, gif_optimize = True, gif_transparency = Some 0\<rparr>), None)
        | Some e' \<Rightarrow> (fs, Some e'))"
  using assms by (cases "frames a") (simp_all add: save_standard_gif_def Image_save_def split: option.splits)

lemma optimize_frames_square:
  "optimize_frames host [square] =
     Inl (ValueError, ''only RGB or L mode images can be quantized to a palette'')"
proof -
  have "new_failure host (int (width square) * min 4 (int (length [square])), int (height square))
      = None"
    by (simp add: host_def square_def)
  then have "\<exists>blank. Image_new host RGBA
      (int (width square) * min 4 (int (length [square])), int (height square)) transparent
        = Inr blank \<and> mode blank = RGBA"
    by (simp add: Image_new_def)
  then obtain blank where b: "Image_new host RGBA
      (int (width square) * min 4 (int (length [square])), int (height square)) transparent
        = Inr blank" "mode blank = RGBA"
    by blast
  have l: "Image_load square = Inr square" by (simp add: Image_load_def square_def)
  have m: "mode square = RGBA" by (simp add: square_def)
  have "\<exists>c. paste host blank square (0 * int (width square), 0) None = Inr c"
    using l m b(2) by (simp add: paste_def)
  then have "\<exists>c. combined_image host [square] = Inr c"
    using b(1) by (auto simp: combined_image_def)
  then obtain c where c: "combined_image host [square] = Inr c" by blast
  have "convert_adaptive host c = Inr (c\<lparr>mode := P\<rparr>)" by (simp add: host_def)
  moreover have "quantize host square (c\<lparr>mode := P\<rparr>) =
      Inl (ValueError, ''only RGB or L mode images can be quantized to a palette'')"
    by (simp add: host_def square_def)
  ultimately show ?thesis using c by (simp add: optimize_frames_def)
qed

lemma stuck_fields:
  "frames stuck = [square]" "output_path stuck = ''/missing/out.gif''" "optimize_gif stuck"
  by (simp_all add: stuck_def init_def)

text \<open>
  Claim C4, as stated: after a failure of quantization the pipeline still completes and
  produces an artifact. On the sample host the quantizer refuses the RGBA frame, the
  fallback cannot write below \<open>/missing\<close> either, and \<open>save_gif\<close> raises that second
  failure and writes nothing.
\<close>

theorem optimization_fallback_counterexample:
  "frames stuck \<noteq> [] \<and> optimize_gif stuck
   \<and> optimize_frames host (frames stuck) =
        Inl (ValueError, ''only RGB or L mode images can be quantized to a palette'')
   \<and> save_gif host stuck Map.empty =
        (Map.empty, Some (FileNotFoundError, ''No such file or directory''))"
proof -
  have "save_failure host ''/missing/out.gif'' art = Some (FileNotFoundError, ''No such file or directory'')" for art
    by (simp add: host_def)
  then have "save_standard_gif host stuck Map.empty =
      (Map.empty, Some (FileNotFoundError, ''No such file or directory''))"
    by (simp add: save_standard_gif_def Image_save_def stuck_fields)
  then show ?thesis
    using optimize_frames_square
    by (simp add: save_gif_def save_optimized_gif_def stuck_fields)
qed

text \<open>
  Claim C4, amended: for every frame list that is not empty, when palette construction or
  quantization fails, the optimization is dropped for the whole batch and the outcome of
  \<open>save_gif\<close> is the outcome of \<open>_save_standard_gif\<close> on the original frames: the failure of
  the optimization is never raised; when the standard write succeeds the artifact, with
  every original frame and transparency index 0, is at the output path and nothing is
  raised; when the standard write fails, that failure is raised and no file is written.
\<close>

theorem optimization_failure_falls_back:
  assumes "frames a \<noteq> []" and "optimize_frames env (frames a) = Inl e" and "optimize_gif a"
  shows "save_gif env a fs = save_standard_gif env a fs
     \<and> save_standard_gif env a fs =
       (case save_failure env (output_path a)
               \<lparr>gif_frames = frames a, gif_duration = frame_duration a, gif_loop = 0,
                gif_disposal = 2, gif_optimize = True, gif_transparency = Some 0\<rparr> of
          None \<Rightarrow> (fs(output_path a \<mapsto>
                      \<lparr>gif_frames = frames a, gif_duration = frame_duration a, gif_loop = 0,
                       gif_disposal = 2, gif_optimize = True, gif_transparency = Some 0\<rparr>), None)
        | Some e' \<Rightarrow> (fs, Some e'))"
  using assms save_standard_gif_outcome [OF assms(1)]
  by (simp add: save_gif_def save_optimized_gif_def)

theorem optimization_failure_falls_back_witness:
  "frames ready \<noteq> [] \<and> optimize_gif ready
   \<and> optimize_frames host (frames ready) =
        Inl (ValueError, ''only RGB or L mode images can be quantized to a palette'')
   \<and> save_gif host ready Map.empty =
        ([''square_bobbing.gif'' \<mapsto>
            \<lparr>gif_frames = [square], gif_duration = 80, gif_loop = 0,
             gif_disposal = 2, gif_optimize = True, gif_transparency = Some 0\<rparr>], None)"
proof -
  have r: "frames ready = [square]" "optimize_gif ready" "frame_duration ready = 80"
    "output_path ready = ''square_bobbing.gif''"
    by (simp_all add: ready_def init_def get_default_output_path_def host_def)
  have h1: "frames ready \<noteq> []" by (simp add: r)
  have h2: "optimize_frames host (frames ready) =
        Inl (ValueError, ''only RGB or L mode images can be quantized to a palette'')"
    using optimize_frames_square by (simp add: r)
  have sf: "save_failure host ''square_bobbing.gif'' art = None" for art
    by (simp add: host_def)
  show ?thesis
    using optimization_failure_falls_back [OF h1 h2 r(2), of Map.empty] h1 h2 r(2) by (simp add: r sf)
qed

section \<open>Properties of the setters\<close>

text \<open>
  Claim C8, as stated: a frame count below 1, a negative bob height or a frame duration
  below 1 is answered by a validation error. \<open>set_animation_params\<close> stores 0, -5 and 0
  and raises nothing.
\<close>

theorem set_animation_params_counterexample:
  "set_animation_params fresh (Some 0) (Some (- 5)) (Some 0) =
     fresh\<lparr>frame_count := 0, bob_height := - 5, frame_duration := 0\<rparr>"
  by (simp add: set_animation_params_def)

text \<open>
  Claim C8, amended: \<open>set_animation_params\<close> validates nothing and never raises: every
  value it is given, in range or not, is stored as it is, and a parameter that is not
  given keeps its value.
\<close>

theorem set_animation_params_stores:
  "frame_count (set_animation_params a (Some n) bh fd) = n
   \<and> bob_height (set_animation_params a fc (Some h) fd) = h
   \<and> frame_duration (set_animation_params a fc bh (Some d)) = d
   \<and> frame_count (set_animation_params a None bh fd) = frame_count a
   \<and> bob_height (set_animation_params a fc None fd) = bob_height a
   \<and> frame_duration (set_animation_params a fc bh None) = frame_duration a"
  by (simp add: set_animation_params_def Let_def split: option.splits)

text \<open>
  Claim C9, as stated: after every call of the setter the stored worker count is at most
  \<open>min(available, 8)\<close>. On the sample host, with sixteen processors, a request for 12
  workers stores 12.
\<close>

theorem set_performance_options_counterexample:
  "max_workers (set_performance_options host fresh True True True (Some 12)) = 12
   \<and> \<not> 12 \<le> min (cpu_count host) 8"
  by (simp add: set_performance_options_def host_def)

text \<open>
  Claim C9, amended: at construction the worker count is \<open>min(available, 8)\<close>. A call of
  the setter with a requested count \<open>w\<close> stores \<open>min(w, available)\<close>, which never exceeds
  the hardware parallelism and is not capped at 8; a call without a requested count keeps
  the stored one.
\<close>

theorem max_workers_bounds:
  "max_workers (init env p out) = min (cpu_count env) 8
   \<and> max_workers (set_performance_options env a mp np og (Some w)) = min w (cpu_count env)
   \<and> max_workers (set_performance_options env a mp np og (Some w)) \<le> cpu_count env
   \<and> max_workers (set_performance_options env a mp np og None) = max_workers a"
  by (simp add: init_def set_performance_options_def)

end
